theory Spec2Isabelle
  imports Main "HOL-Library.Word"
begin

unbundle bit_operations_syntax

section \<open>Data model of core/exceptions.c\<close>

text \<open>
  The register snapshot \<^verbatim>\<open>struct stack_frame\<close> that the entry trampolines fill in.
  Only the fields that \<^verbatim>\<open>exception_entry\<close> and \<^verbatim>\<open>dump_regs\<close> touch are kept; the widths
  are the ones the format strings of \<^verbatim>\<open>dump_regs\<close> print them with (\<^verbatim>\<open>%016llx\<close> for
  64-bit fields, \<^verbatim>\<open>%08x\<close> for 32-bit ones). The bank \<^verbatim>\<open>gpr[32]\<close> is a function of the
  index; the code reads indices 0 to 31 only.
\<close>

record stack_frame =
  type :: "64 word"
  gpr :: "nat \<Rightarrow> 64 word"
  cr :: "32 word"
  xer :: "32 word"
  dsisr :: "32 word"
  ctr :: "64 word"
  lr :: "64 word"
  msr :: "64 word"
  cfar :: "64 word"
  srr0 :: "64 word"
  srr1 :: "64 word"
  hsrr0 :: "64 word"
  hsrr1 :: "64 word"
  dar :: "64 word"

text \<open>The two fields of \<^verbatim>\<open>this_cpu()\<close> that the machine-check path reads and writes.\<close>

record cpu_thread =
  vm_setup :: bool
  vm_local_map_inuse :: bool

text \<open>
  What \<^verbatim>\<open>exception_entry\<close> uses and the file does not define. The bit masks
  \<^verbatim>\<open>MSR_RI\<close>, \<^verbatim>\<open>MSR_IR\<close>, \<^verbatim>\<open>MSR_DR\<close> and \<^verbatim>\<open>DSISR_ISSTORE\<close> come from a header; they are
  parameters here, so every theorem holds for any value of them. The four fault
  resolvers receive the addresses only (never the snapshot); they answer
  handled / not handled and may change the CPU-local state. \<^verbatim>\<open>get_symbol\<close> is the
  symbol table: the name printed for an address, or nothing.
\<close>

record extern =
  MSR_RI :: "64 word"
  MSR_IR :: "64 word"
  MSR_DR :: "64 word"
  DSISR_ISSTORE :: "32 word"
  vm_dsi :: "cpu_thread \<Rightarrow> 64 word \<Rightarrow> 64 word \<Rightarrow> bool \<Rightarrow> bool \<times> cpu_thread"
  vm_dslb :: "cpu_thread \<Rightarrow> 64 word \<Rightarrow> 64 word \<Rightarrow> bool \<times> cpu_thread"
  vm_isi :: "cpu_thread \<Rightarrow> 64 word \<Rightarrow> bool \<times> cpu_thread"
  vm_islb :: "cpu_thread \<Rightarrow> 64 word \<Rightarrow> bool \<times> cpu_thread"
  get_symbol :: "64 word \<Rightarrow> string option"

text \<open>What a run does to the outside: lines sent to \<^verbatim>\<open>prerror\<close> and calls of \<^verbatim>\<open>backtrace\<close>.\<close>

datatype event = Prerror string | Backtrace

section \<open>Formatting\<close>

text \<open>
  The conversions of the format strings: \<^verbatim>\<open>%llx\<close> (hexadecimal, lower case, no
  padding), \<^verbatim>\<open>%016llx\<close> and \<^verbatim>\<open>%08x\<close> (zero-padded to 16 and 8 digits) and \<^verbatim>\<open>%02d\<close>.
\<close>

definition hex_digit :: "nat \<Rightarrow> char" where
  "hex_digit d = ''0123456789abcdef'' ! (d mod 16)"

fun hex_nat :: "nat \<Rightarrow> string" where
  "hex_nat n = (if n < 16 then [hex_digit n] else hex_nat (n div 16) @ [hex_digit (n mod 16)])"

declare hex_nat.simps [simp del]

fun dec_nat :: "nat \<Rightarrow> string" where
  "dec_nat n = (if n < 10 then [hex_digit n] else dec_nat (n div 10) @ [hex_digit (n mod 10)])"

declare dec_nat.simps [simp del]

definition zero_pad :: "nat \<Rightarrow> string \<Rightarrow> string" where
  "zero_pad w s = replicate (w - length s) (CHR ''0'') @ s"

definition fmt_llx :: "64 word \<Rightarrow> string" where
  "fmt_llx v = hex_nat (unat v)"

definition REG :: "64 word \<Rightarrow> string" where
  "REG v = zero_pad 16 (hex_nat (unat v))"

definition REG32 :: "32 word \<Rightarrow> string" where
  "REG32 v = zero_pad 8 (hex_nat (unat v))"

definition fmt_02d :: "nat \<Rightarrow> string" where
  "fmt_02d i = zero_pad 2 (dec_nat i)"

definition nl :: string where
  "nl = [CHR 0x0A]"

definition NUL :: char where
  "NUL = CHR 0x00"

definition dump_regs :: "stack_frame \<Rightarrow> event list" where
  "dump_regs stack =
     [Prerror (''CFAR : '' @ REG (cfar stack) @ '' MSR  : '' @ REG (msr stack) @ nl),
      Prerror (''SRR0 : '' @ REG (srr0 stack) @ '' SRR1 : '' @ REG (srr1 stack) @ nl),
      Prerror (''HSRR0: '' @ REG (hsrr0 stack) @ '' HSRR1: '' @ REG (hsrr1 stack) @ nl),
      Prerror (''DSISR: '' @ REG32 (dsisr stack) @ ''         DAR  : '' @ REG (dar stack) @ nl),
      Prerror (''LR   : '' @ REG (lr stack) @ '' CTR  : '' @ REG (ctr stack) @ nl),
      Prerror (''CR   : '' @ REG32 (cr stack) @ ''         XER  : '' @ REG32 (xer stack) @ nl)]
     @ map (\<lambda>i. Prerror (''GPR'' @ fmt_02d i @ '': '' @ REG (gpr stack i)
                          @ '' GPR'' @ fmt_02d (i + 16) @ '': '' @ REG (gpr stack (i + 16)) @ nl))
           [0..<16]"

section \<open>The diagnostic buffer\<close>

definition EXCEPTION_MAX_STR :: nat where
  "EXCEPTION_MAX_STR = 320"

text \<open>
  \<^verbatim>\<open>char buf[EXCEPTION_MAX_STR]\<close> is a local array that starts with indeterminate
  contents: a byte is \<open>None\<close> until something is stored in it.
\<close>

type_synonym cbuf = "char option list"

definition new_buf :: cbuf where
  "new_buf = replicate EXCEPTION_MAX_STR None"

text \<open>
  Storing the characters \<open>s\<close> and a terminating NUL at offset \<open>off\<close>. A store that
  would land past the end of the array is \<open>None\<close>: the memory corruption the
  bounded formatting has to exclude.
\<close>

definition buf_store :: "cbuf \<Rightarrow> nat \<Rightarrow> string \<Rightarrow> cbuf option" where
  "buf_store buf off s =
     (if off + length s + 1 \<le> length buf
      then Some (take off buf @ map Some s @ [Some NUL] @ drop (off + length s + 1) buf)
      else None)"

text \<open>
  Modelled from the spec: \<^verbatim>\<open>snprintf\<close> is the firmware's own C library and not part
  of these sources. The spec has all formatting write into a fixed-capacity buffer
  where "writes beyond capacity truncate silently rather than corrupting memory or
  failing": given the capacity \<open>n\<close> the caller passes, the writer stores at most
  \<open>n - 1\<close> characters of the formatted text and a NUL, stores nothing when \<open>n = 0\<close>,
  and returns the number of characters it stored. It trusts \<open>n\<close>: a capacity larger
  than the room left at \<open>buf + off\<close> makes the store run past the array.
\<close>

definition snprintf :: "cbuf \<Rightarrow> nat \<Rightarrow> nat \<Rightarrow> string \<Rightarrow> (cbuf \<times> nat) option" where
  "snprintf buf off n text =
     (if n = 0 then Some (buf, 0)
      else (case buf_store buf off (take (n - 1) text) of
              None \<Rightarrow> None
            | Some buf' \<Rightarrow> Some (buf', length (take (n - 1) text))))"

text \<open>
  Modelled from the spec: \<^verbatim>\<open>snprintf_symbol\<close> is not part of these sources either.
  The spec's symbol resolver gives a name or nothing, "absence is a normal outcome":
  with no name nothing is written and 0 is returned, otherwise the name goes through
  the same bounded writer.
\<close>

definition snprintf_symbol :: "extern \<Rightarrow> cbuf \<Rightarrow> nat \<Rightarrow> nat \<Rightarrow> 64 word \<Rightarrow> (cbuf \<times> nat) option" where
  "snprintf_symbol env buf off n addr =
     (case get_symbol env addr of
        None \<Rightarrow> Some (buf, 0)
      | Some name \<Rightarrow> snprintf buf off n name)"

text \<open>\<^verbatim>\<open>size_t\<close> is 64 bits wide: \<^verbatim>\<open>EXCEPTION_MAX_STR - l\<close> and \<^verbatim>\<open>l += ...\<close> wrap around.\<close>

definition size_sub :: "nat \<Rightarrow> nat \<Rightarrow> nat" where
  "size_sub a b = (a + 2 ^ 64 - b mod 2 ^ 64) mod 2 ^ 64"

definition size_add :: "nat \<Rightarrow> nat \<Rightarrow> nat" where
  "size_add a b = (a + b) mod 2 ^ 64"

text \<open>The pair of \<^verbatim>\<open>buf\<close> and the running length \<^verbatim>\<open>l\<close>; \<open>None\<close> after a store out of bounds.\<close>

type_synonym fmt = "cbuf \<times> nat"

text \<open>\<^verbatim>\<open>l += snprintf(buf + l, EXCEPTION_MAX_STR - l, ...)\<close>\<close>

definition add_snprintf :: "fmt option \<Rightarrow> string \<Rightarrow> fmt option" where
  "add_snprintf f text =
     (case f of
        None \<Rightarrow> None
      | Some (buf, l) \<Rightarrow>
          (case snprintf buf l (size_sub EXCEPTION_MAX_STR l) text of
             None \<Rightarrow> None
           | Some (buf', k) \<Rightarrow> Some (buf', size_add l k)))"

text \<open>\<^verbatim>\<open>l += snprintf_symbol(buf + l, EXCEPTION_MAX_STR - l, nip)\<close>\<close>

definition add_snprintf_symbol :: "extern \<Rightarrow> fmt option \<Rightarrow> 64 word \<Rightarrow> fmt option" where
  "add_snprintf_symbol env f addr =
     (case f of
        None \<Rightarrow> None
      | Some (buf, l) \<Rightarrow>
          (case snprintf_symbol env buf l (size_sub EXCEPTION_MAX_STR l) addr of
             None \<Rightarrow> None
           | Some (buf', k) \<Rightarrow> Some (buf', size_add l k)))"

text \<open>
  What \<^verbatim>\<open>%s\<close> reads from the array: the characters before the first NUL. Reaching
  the end of the array or a byte that was never written is \<open>None\<close>.
\<close>

fun c_str :: "cbuf \<Rightarrow> string option" where
  "c_str [] = None"
| "c_str (None # bs) = None"
| "c_str (Some c # bs) = (if c = NUL then Some [] else map_option ((#) c) (c_str bs))"

text \<open>\<^verbatim>\<open>prerror("%s\n", buf)\<close>\<close>

definition prerror_buf :: "fmt option \<Rightarrow> event option" where
  "prerror_buf f =
     (case f of
        None \<Rightarrow> None
      | Some (buf, l) \<Rightarrow> map_option (\<lambda>s. Prerror (s @ nl)) (c_str buf))"

section \<open>The handlers\<close>

definition stars :: string where
  "stars = replicate 47 (CHR ''*'') @ nl"

definition print_recoverable_mce_vm ::
  "extern \<Rightarrow> stack_frame \<Rightarrow> 64 word \<Rightarrow> 64 word \<Rightarrow> event list option" where
  "print_recoverable_mce_vm env stack nip msrv =
     (let f = Some (new_buf, 0);
          f = add_snprintf f (''Recoverable MCE with VM on at '' @ REG nip @ ''   '');
          f = add_snprintf_symbol env f nip;
          f = add_snprintf f (''  MSR '' @ REG msrv)
      in case prerror_buf f of
           None \<Rightarrow> None
         | Some e \<Rightarrow> Some ([e] @ dump_regs stack @ [Prerror (''Continuing with VM off'' @ nl)]))"

text \<open>
  A run of \<^verbatim>\<open>exception_entry\<close> ends in \<^verbatim>\<open>abort()\<close>, which does not return, or returns
  to the trampoline. \<open>Undefined\<close> stands for a run that stored outside \<^verbatim>\<open>buf\<close> or
  printed an unterminated \<^verbatim>\<open>buf\<close>. The rest of the record is the state at that moment.
\<close>

datatype outcome = Returned | Aborted | Undefined

record run =
  run_outcome :: outcome
  run_stack :: stack_frame
  run_cpu :: cpu_thread
  run_log :: "event list"

text \<open>The first \<^verbatim>\<open>switch\<close> of \<^verbatim>\<open>exception_entry\<close>: the vectors that set \<^verbatim>\<open>hv\<close>.\<close>

definition exception_hv :: "64 word \<Rightarrow> bool" where
  "exception_hv t =
     (t = 0x500 \<or> t = 0x980 \<or> t = 0xe00 \<or> t = 0xe20 \<or> t = 0xe40 \<or>
      t = 0xe60 \<or> t = 0xe80 \<or> t = 0xea0 \<or> t = 0xf80)"

text \<open>Lines 68 to 91: \<^verbatim>\<open>hv\<close>, \<^verbatim>\<open>nip\<close> and \<^verbatim>\<open>msr\<close>.\<close>

definition fault_regs :: "stack_frame \<Rightarrow> bool \<times> 64 word \<times> 64 word" where
  "fault_regs stack =
     (if exception_hv (type stack) then (True, hsrr0 stack, hsrr1 stack)
      else (False, srr0 stack, srr1 stack))"

text \<open>From the label \<^verbatim>\<open>out:\<close> to the end of \<^verbatim>\<open>exception_entry\<close>.\<close>

definition exception_out ::
  "bool \<Rightarrow> bool \<Rightarrow> 64 word \<Rightarrow> 64 word \<Rightarrow> stack_frame \<Rightarrow> cpu_thread \<Rightarrow> event list \<Rightarrow> run" where
  "exception_out fatal hv nip msrv stack cpu evs =
     (if fatal then
        \<lparr>run_outcome = Aborted, run_stack = stack, run_cpu = cpu, run_log = evs\<rparr>
      else
        \<lparr>run_outcome = Returned,
         run_stack = (if hv then stack\<lparr>srr0 := nip, srr1 := msrv\<rparr> else stack),
         run_cpu = cpu, run_log = evs\<rparr>)"

text \<open>
  From the end of the second \<^verbatim>\<open>switch\<close> on: the symbol, the MSR, the summary line, the
  register dump, the backtrace, and then \<^verbatim>\<open>out:\<close>. \<open>evs\<close> is what was printed so far and
  \<open>f\<close> the buffer as the \<^verbatim>\<open>case\<close> left it.
\<close>

definition exception_report ::
  "extern \<Rightarrow> bool \<Rightarrow> bool \<Rightarrow> 64 word \<Rightarrow> 64 word \<Rightarrow> stack_frame \<Rightarrow> cpu_thread \<Rightarrow>
   event list \<Rightarrow> fmt option \<Rightarrow> run" where
  "exception_report env fatal hv nip msrv stack cpu evs f =
     (let f = add_snprintf_symbol env f nip;
          f = add_snprintf f (''  MSR '' @ REG msrv)
      in case prerror_buf f of
           None \<Rightarrow> \<lparr>run_outcome = Undefined, run_stack = stack, run_cpu = cpu, run_log = evs\<rparr>
         | Some e \<Rightarrow>
             exception_out fatal hv nip msrv stack cpu
               (evs @ [e] @ dump_regs stack @ (if \<not> fatal then [Backtrace] else [])))"

definition exception_entry :: "extern \<Rightarrow> cpu_thread \<Rightarrow> stack_frame \<Rightarrow> run" where
  "exception_entry env cpu stack =
     (let (hv, nip, msrv) = fault_regs stack;
          fatal = (msrv AND MSR_RI env = 0);
          f = Some (new_buf, 0)
      in
      if type stack = 0x100 then
        exception_report env fatal hv nip msrv stack cpu [Prerror stars]
          (if fatal then add_snprintf f (''Fatal System Reset at '' @ REG nip @ ''   '')
           else add_snprintf f (''System Reset at '' @ REG nip @ ''   ''))
      else if type stack = 0x200 then
        (let fatal = (fatal \<or> vm_local_map_inuse cpu) in
         if \<not> fatal \<and> msrv AND (MSR_IR env OR MSR_DR env) \<noteq> 0 then
           (case print_recoverable_mce_vm env stack nip msrv of
              None \<Rightarrow> \<lparr>run_outcome = Undefined, run_stack = stack, run_cpu = cpu, run_log = []\<rparr>
            | Some evs \<Rightarrow>
                exception_out fatal hv nip msrv
                  (stack\<lparr>srr1 := srr1 stack AND NOT (MSR_IR env OR MSR_DR env)\<rparr>)
                  (cpu\<lparr>vm_setup := False\<rparr>) evs)
         else
           exception_report env True hv nip msrv stack cpu [Prerror stars]
             (add_snprintf f (''Fatal MCE at '' @ REG nip @ ''   '')))
      else if type stack = 0x300 then
        (let store = (dsisr stack AND DSISR_ISSTORE env \<noteq> 0);
             (handled, cpu') = vm_dsi env cpu nip (dar stack) store
         in
         if handled then exception_out fatal hv nip msrv stack cpu' []
         else
           exception_report env True hv nip msrv stack cpu' []
             (add_snprintf f (''Fatal '' @ (if store then ''store'' else ''load'') @ '' address ''
                              @ REG (dar stack) @ '' at '' @ REG nip @ ''   '')))
      else if type stack = 0x380 then
        (let (handled, cpu') = vm_dslb env cpu nip (dar stack) in
         if handled then exception_out fatal hv nip msrv stack cpu' []
         else
           exception_report env True hv nip msrv stack cpu' []
             (add_snprintf f (''Fatal load/store address '' @ REG (dar stack) @ '' at ''
                              @ REG nip @ ''   '')))
      else if type stack = 0x400 then
        (let (handled, cpu') = vm_isi env cpu nip in
         if handled then exception_out fatal hv nip msrv stack cpu' []
         else
           exception_report env True hv nip msrv stack cpu' []
             (add_snprintf f (''Fatal ifetch at '' @ REG nip @ ''   '')))
      else if type stack = 0x480 then
        (let (handled, cpu') = vm_islb env cpu nip in
         if handled then exception_out fatal hv nip msrv stack cpu' []
         else
           exception_report env True hv nip msrv stack cpu' []
             (add_snprintf f (''Fatal ifetch at '' @ REG nip @ ''   '')))
      else
        exception_report env True hv nip msrv stack cpu [Prerror stars]
          (add_snprintf f (''Fatal Exception 0x'' @ fmt_llx (type stack) @ '' at ''
                           @ REG nip @ ''  '')))"

section \<open>Closed forms used in the statements\<close>

text \<open>
  The invariant of the formatting: the array has its full size, the first \<open>l\<close> bytes
  are the characters \<open>s\<close> written so far, byte \<open>l\<close> is the NUL, and \<open>l\<close> is below the
  capacity.
\<close>

definition holds :: "fmt \<Rightarrow> string \<Rightarrow> bool" where
  "holds f s \<longleftrightarrow>
     length (fst f) = EXCEPTION_MAX_STR \<and> snd f = length s \<and> length s < EXCEPTION_MAX_STR \<and>
     take (length s + 1) (fst f) = map Some s @ [Some NUL]"

text \<open>
  What \<^verbatim>\<open>snprintf_symbol\<close> leaves in the array when \<open>l\<close> characters are in it already,
  and what the printed summary line holds after the head that the \<^verbatim>\<open>case\<close> wrote:
  the symbol, then the text \<open>rest\<close>, cut at 319 characters in all, read as a C string.
\<close>

definition symbol_text :: "extern \<Rightarrow> nat \<Rightarrow> 64 word \<Rightarrow> string" where
  "symbol_text env l addr =
     (case get_symbol env addr of None \<Rightarrow> [] | Some name \<Rightarrow> take (319 - l) name)"

definition summary_tail :: "extern \<Rightarrow> string \<Rightarrow> 64 word \<Rightarrow> string \<Rightarrow> string" where
  "summary_tail env head addr rest =
     (let t = symbol_text env (length head) addr
      in takeWhile (\<lambda>c. c \<noteq> NUL) (t @ take (319 - length (head @ t)) rest))"

text \<open>
  The call of the resolver that matches a storage or segment fault, as the second
  \<^verbatim>\<open>switch\<close> makes it (these vectors never set \<^verbatim>\<open>hv\<close>, so \<^verbatim>\<open>nip\<close> is \<^verbatim>\<open>srr0\<close>): its answer
  and the CPU-local state it leaves; \<open>None\<close> for every other vector.
\<close>

definition fault_resolver :: "extern \<Rightarrow> cpu_thread \<Rightarrow> stack_frame \<Rightarrow> (bool \<times> cpu_thread) option" where
  "fault_resolver env cpu stack =
     (if type stack = 0x300 then
        Some (vm_dsi env cpu (srr0 stack) (dar stack) (dsisr stack AND DSISR_ISSTORE env \<noteq> 0))
      else if type stack = 0x380 then Some (vm_dslb env cpu (srr0 stack) (dar stack))
      else if type stack = 0x400 then Some (vm_isi env cpu (srr0 stack))
      else if type stack = 0x480 then Some (vm_islb env cpu (srr0 stack))
      else None)"

text \<open>The length of a printed line, and the test for the notice of the retry path.\<close>

fun line_length :: "event \<Rightarrow> nat" where
  "line_length (Prerror s) = length s"
| "line_length Backtrace = 0"

fun mce_notice :: "event \<Rightarrow> bool" where
  "mce_notice (Prerror s) = (take 30 s = ''Recoverable MCE with VM on at '')"
| "mce_notice Backtrace = False"


text \<open>
  Concrete inputs for the examples: the mask values of the Power ISA
  (\<^verbatim>\<open>MSR_RI\<close> = 0x2, \<^verbatim>\<open>MSR_IR\<close> = 0x20, \<^verbatim>\<open>MSR_DR\<close> = 0x10, \<^verbatim>\<open>DSISR_ISSTORE\<close> = 0x02000000),
  resolvers that all give the answer \<open>handled\<close> and leave the CPU-local state alone,
  and a symbol table that gives \<open>name\<close> for every address; a snapshot with trap
  identifier \<open>t\<close> and \<^verbatim>\<open>srr1\<close> = \<open>m\<close>, whose \<^verbatim>\<open>hsrr1\<close> has \<^verbatim>\<open>MSR_RI\<close> set.
\<close>

definition demo_env :: "bool \<Rightarrow> string option \<Rightarrow> extern" where
  "demo_env handled name =
     \<lparr>MSR_RI = 0x2, MSR_IR = 0x20, MSR_DR = 0x10, DSISR_ISSTORE = 0x02000000,
      vm_dsi = (\<lambda>c n d s. (handled, c)), vm_dslb = (\<lambda>c n d. (handled, c)),
      vm_isi = (\<lambda>c n. (handled, c)), vm_islb = (\<lambda>c n. (handled, c)),
      get_symbol = (\<lambda>a. name)\<rparr>"

definition demo_frame :: "64 word \<Rightarrow> 64 word \<Rightarrow> stack_frame" where
  "demo_frame t m =
     \<lparr>type = t, gpr = of_nat, cr = 0, xer = 0, dsisr = 0x02000000, ctr = 0, lr = 0, msr = 0,
      cfar = 0, srr0 = 0x30001234, srr1 = m, hsrr0 = 0x30005678, hsrr1 = 0x2, dar = 0x8000\<rparr>"

definition demo_cpu :: "bool \<Rightarrow> cpu_thread" where
  "demo_cpu inuse = \<lparr>vm_setup = True, vm_local_map_inuse = inuse\<rparr>"

section \<open>Properties of the formatting\<close>

lemma hex_digit_not_NUL: "hex_digit d \<noteq> NUL"
proof -
  have "hex_digit d \<in> set ''0123456789abcdef''"
    unfolding hex_digit_def by (rule nth_mem) simp
  then show ?thesis
    by (auto simp: NUL_def)
qed

lemma hex_nat_no_NUL: "NUL \<notin> set (hex_nat n)"
proof (induction n rule: hex_nat.induct)
  case (1 n)
  show ?case
  proof (cases "n < 16")
    case True
    then show ?thesis by (simp add: hex_nat.simps [of n] hex_digit_not_NUL [symmetric])
  next
    case False
    with 1 show ?thesis by (simp add: hex_nat.simps [of n] hex_digit_not_NUL [symmetric])
  qed
qed

lemma length_hex_nat: "0 < k \<Longrightarrow> n < 16 ^ k \<Longrightarrow> length (hex_nat n) \<le> k"
proof (induction n arbitrary: k rule: hex_nat.induct)
  case (1 n)
  show ?case
  proof (cases "n < 16")
    case True
    with 1(2) show ?thesis by (simp add: hex_nat.simps [of n])
  next
    case False
    obtain j where k: "k = Suc j" using 1(2) by (cases k) auto
    have "j \<noteq> 0" using False 1(3) k by (cases j) auto
    moreover have "n div 16 < 16 ^ j" using 1(3) k by (simp add: less_mult_imp_div_less mult.commute)
    ultimately have "length (hex_nat (n div 16)) \<le> j" using 1(1) [OF False, of j] by simp
    then show ?thesis using False k by (simp add: hex_nat.simps [of n])
  qed
qed

lemma length_hex_nat_pos: "0 < length (hex_nat n)"
  by (subst hex_nat.simps) simp

lemma length_fmt_llx: "length (fmt_llx v) \<le> 16"
proof -
  have "unat v < 2 ^ 64" using unsigned_less [of v] by simp
  then have "unat v < (16::nat) ^ 16" by simp
  then show ?thesis unfolding fmt_llx_def by (intro length_hex_nat) simp_all
qed

lemma length_REG: "length (REG v) = 16"
proof -
  have "unat v < 2 ^ 64" using unsigned_less [of v] by simp
  then have "unat v < (16::nat) ^ 16" by simp
  then have "length (hex_nat (unat v)) \<le> 16" by (intro length_hex_nat) simp_all
  then show ?thesis by (simp add: REG_def zero_pad_def)
qed

lemma length_REG32: "length (REG32 v) = 8"
proof -
  have "unat v < 2 ^ 32" using unsigned_less [of v] by simp
  then have "unat v < (16::nat) ^ 8" by simp
  then have "length (hex_nat (unat v)) \<le> 8" by (intro length_hex_nat) simp_all
  then show ?thesis by (simp add: REG32_def zero_pad_def)
qed

lemma REG_no_NUL: "NUL \<notin> set (REG v)"
  using hex_nat_no_NUL [of "unat v"] by (auto simp: REG_def zero_pad_def NUL_def)

lemma fmt_llx_no_NUL: "NUL \<notin> set (fmt_llx v)"
  by (simp add: fmt_llx_def hex_nat_no_NUL)


lemma size_sub_small: "l < 320 \<Longrightarrow> size_sub EXCEPTION_MAX_STR l = 320 - l"
proof -
  assume l: "l < 320"
  define M :: nat where "M = 2 ^ 64"
  have M: "320 < M" by (simp add: M_def)
  have lM: "l mod M = l" using l M by simp
  have "size_sub EXCEPTION_MAX_STR l = (320 + M - l mod M) mod M"
    by (simp add: size_sub_def EXCEPTION_MAX_STR_def M_def)
  also have "\<dots> = ((320 - l) + M) mod M" using l lM by simp
  also have "\<dots> = (320 - l) mod M" by simp
  also have "\<dots> = 320 - l" using M by simp
  finally show ?thesis .
qed

lemma size_add_small: "l < 320 \<Longrightarrow> k < 320 \<Longrightarrow> size_add l k = l + k"
  by (simp add: size_add_def)

lemma snprintf_holds:
  assumes len: "length buf = EXCEPTION_MAX_STR"
    and pre: "take (length s) buf = map Some s"
    and l: "length s < EXCEPTION_MAX_STR"
  shows "\<exists>f'. add_snprintf (Some (buf, length s)) str = Some f' \<and>
              holds f' (s @ take (319 - length s) str)"
proof -
  define l where "l = length s"
  define t where "t = take (319 - l) str"
  have l320: "l < 320" using l by (simp add: EXCEPTION_MAX_STR_def l_def)
  have n: "size_sub EXCEPTION_MAX_STR l = 320 - l" using l320 by (rule size_sub_small)
  have t: "take (320 - l - 1) str = t" by (simp add: t_def)
  have lt: "length t \<le> 319 - l" by (simp add: t_def)
  have fits: "l + length t + 1 \<le> length buf"
    using lt l320 len by (simp add: EXCEPTION_MAX_STR_def)
  define buf' where "buf' = take l buf @ map Some t @ [Some NUL] @ drop (l + length t + 1) buf"
  have st: "buf_store buf l t = Some buf'" using fits by (simp add: buf_store_def buf'_def)
  have sn: "snprintf buf l (320 - l) str = Some (buf', length t)"
    unfolding snprintf_def t using l320 st by simp
  have sa: "size_add l (length t) = l + length t"
    using l320 lt by (intro size_add_small) simp_all
  have res: "add_snprintf (Some (buf, l)) str = Some (buf', l + length t)"
    by (simp add: add_snprintf_def n sn sa)
  have len': "length buf' = EXCEPTION_MAX_STR" using fits len by (simp add: buf'_def)
  have buf': "buf' = map Some (s @ t) @ [Some NUL] @ drop (l + length t + 1) buf"
    using pre by (simp add: buf'_def l_def)
  have tk: "take (length (s @ t) + 1) buf' = map Some (s @ t) @ [Some NUL]"
    unfolding buf' by simp
  have "holds (buf', l + length t) (s @ t)"
    unfolding holds_def using len' tk lt l320 by (simp add: EXCEPTION_MAX_STR_def l_def)
  with res show ?thesis unfolding l_def t_def by blast
qed

lemma add_first:
  "\<exists>f'. add_snprintf (Some (new_buf, 0)) str = Some f' \<and> holds f' (take 319 str)"
  using snprintf_holds [of new_buf "[]" str]
  by (simp add: new_buf_def EXCEPTION_MAX_STR_def)

lemma holds_take: "holds (buf, l) s \<Longrightarrow> take (length s) buf = map Some s"
proof -
  assume h: "holds (buf, l) s"
  then have "take (length s + 1) buf = map Some s @ [Some NUL]" by (simp add: holds_def)
  then have "take (length s) (take (length s + 1) buf) = take (length s) (map Some s @ [Some NUL])"
    by simp
  then show ?thesis by simp
qed

lemma add_next:
  assumes "holds f s"
  shows "\<exists>f'. add_snprintf (Some f) str = Some f' \<and> holds f' (s @ take (319 - length s) str)"
proof -
  obtain buf l where f: "f = (buf, l)" by (cases f)
  have l: "l = length s" and len: "length buf = EXCEPTION_MAX_STR"
    and lt: "length s < EXCEPTION_MAX_STR"
    using assms f by (simp_all add: holds_def)
  have pre: "take (length s) buf = map Some s" using assms f by (simp add: holds_take)
  show ?thesis using snprintf_holds [OF len pre lt, of str] f l by simp
qed

lemma c_str_terminated:
  "c_str (map Some s @ Some NUL # rest) = Some (takeWhile (\<lambda>c. c \<noteq> NUL) s)"
  by (induction s) simp_all

lemma c_str_holds:
  assumes "holds f s"
  shows "c_str (fst f) = Some (takeWhile (\<lambda>c. c \<noteq> NUL) s)"
proof -
  have "fst f = take (length s + 1) (fst f) @ drop (length s + 1) (fst f)" by simp
  also have "\<dots> = map Some s @ Some NUL # drop (length s + 1) (fst f)"
    using assms by (simp add: holds_def)
  finally have "fst f = map Some s @ Some NUL # drop (length s + 1) (fst f)" .
  then show ?thesis using c_str_terminated by metis
qed

lemma add_symbol:
  assumes "holds f s"
  shows "\<exists>f'. add_snprintf_symbol env (Some f) a = Some f' \<and>
              holds f' (s @ symbol_text env (length s) a)"
proof (cases "get_symbol env a")
  case None
  obtain buf l where f: "f = (buf, l)" by (cases f)
  have l: "l = length s" and lt: "length s < EXCEPTION_MAX_STR"
    using assms f by (simp_all add: holds_def)
  have "size_add l 0 = l" using l lt by (simp add: size_add_def EXCEPTION_MAX_STR_def)
  then have "add_snprintf_symbol env (Some f) a = Some f"
    using None f by (simp add: add_snprintf_symbol_def snprintf_symbol_def)
  then show ?thesis using assms None by (simp add: symbol_text_def)
next
  case (Some name)
  have "add_snprintf_symbol env (Some f) a = add_snprintf (Some f) name"
    using Some by (cases f) (simp add: add_snprintf_symbol_def add_snprintf_def snprintf_symbol_def)
  then show ?thesis using add_next [OF assms, of name] Some by (simp add: symbol_text_def)
qed

lemma summary_line:
  assumes head: "length head \<le> 319" and nonul: "NUL \<notin> set head"
  shows "prerror_buf (add_snprintf (add_snprintf_symbol env
               (add_snprintf (Some (new_buf, 0)) head) a) rest)
           = Some (Prerror (head @ summary_tail env head a rest @ nl))"
    and "length (head @ summary_tail env head a rest) \<le> 319"
proof -
  define t where "t = symbol_text env (length head) a"
  define u where "u = take (319 - length (head @ t)) rest"
  obtain f1 where f1: "add_snprintf (Some (new_buf, 0)) head = Some f1" and h1: "holds f1 head"
    using add_first [of head] head by auto
  obtain f2 where f2: "add_snprintf_symbol env (Some f1) a = Some f2" and h2: "holds f2 (head @ t)"
    using add_symbol [OF h1] unfolding t_def by blast
  obtain f3 where f3: "add_snprintf (Some f2) rest = Some f3" and h3: "holds f3 ((head @ t) @ u)"
    using add_next [OF h2] unfolding u_def by blast
  have st: "summary_tail env head a rest = takeWhile (\<lambda>c. c \<noteq> NUL) (t @ u)"
    by (simp add: summary_tail_def t_def u_def Let_def)
  have "\<And>c. c \<in> set head \<Longrightarrow> c \<noteq> NUL" using nonul by auto
  then have tw: "takeWhile (\<lambda>c. c \<noteq> NUL) ((head @ t) @ u) = head @ summary_tail env head a rest"
    by (simp add: takeWhile_append2 st)
  have "length ((head @ t) @ u) < 320" using h3 by (simp add: holds_def EXCEPTION_MAX_STR_def)
  moreover have "length (head @ summary_tail env head a rest) \<le> length ((head @ t) @ u)"
    unfolding tw [symmetric] by (rule length_takeWhile_le)
  ultimately show "length (head @ summary_tail env head a rest) \<le> 319" by linarith
  have "prerror_buf (Some f3) = Some (Prerror (head @ summary_tail env head a rest @ nl))"
    using c_str_holds [OF h3] tw by (cases f3) (simp add: prerror_buf_def)
  then show "prerror_buf (add_snprintf (add_snprintf_symbol env
               (add_snprintf (Some (new_buf, 0)) head) a) rest)
           = Some (Prerror (head @ summary_tail env head a rest @ nl))"
    using f1 f2 f3 by simp
qed

section \<open>The runs of exception_entry, case by case\<close>

lemma report_run:
  assumes "length head \<le> 319" and "NUL \<notin> set head"
  shows "exception_report env fatal hv nip msrv stack cpu evs (add_snprintf (Some (new_buf, 0)) head)
         = exception_out fatal hv nip msrv stack cpu
             (evs @ [Prerror (head @ summary_tail env head nip (''  MSR '' @ REG msrv) @ nl)]
                  @ dump_regs stack @ (if \<not> fatal then [Backtrace] else []))"
  using summary_line(1) [OF assms, of env nip "''  MSR '' @ REG msrv"]
  by (simp add: exception_report_def)

lemma mce_vm_run:
  "print_recoverable_mce_vm env stack nip msrv =
     Some ([Prerror ((''Recoverable MCE with VM on at '' @ REG nip @ ''   '')
                     @ summary_tail env (''Recoverable MCE with VM on at '' @ REG nip @ ''   '') nip
                         (''  MSR '' @ REG msrv) @ nl)]
           @ dump_regs stack @ [Prerror (''Continuing with VM off'' @ nl)])"
proof -
  let ?head = "''Recoverable MCE with VM on at '' @ REG nip @ ''   ''"
  have 1: "length ?head \<le> 319" by (simp add: length_REG)
  have 2: "NUL \<notin> set ?head" using REG_no_NUL [of nip] by (simp add: NUL_def)
  show ?thesis
    using summary_line(1) [OF 1 2, of env nip "''  MSR '' @ REG msrv"]
    by (simp add: print_recoverable_mce_vm_def)
qed

lemmas no_NUL = REG_no_NUL [unfolded NUL_def] fmt_llx_no_NUL [unfolded NUL_def]

lemma hv_known:
  "\<not> exception_hv 0x100" "\<not> exception_hv 0x200" "\<not> exception_hv 0x300"
  "\<not> exception_hv 0x380" "\<not> exception_hv 0x400" "\<not> exception_hv 0x480"
  by (simp_all add: exception_hv_def)

lemma regs_guest: "\<not> exception_hv (type stack) \<Longrightarrow> fault_regs stack = (False, srr0 stack, srr1 stack)"
  by (simp add: fault_regs_def)

lemma regs_hv: "exception_hv (type stack) \<Longrightarrow> fault_regs stack = (True, hsrr0 stack, hsrr1 stack)"
  by (simp add: fault_regs_def)

lemma entry_reset:
  assumes t: "type stack = 0x100"
  shows "exception_entry env cpu stack =
     (if srr1 stack AND MSR_RI env = 0 then
        \<lparr>run_outcome = Aborted, run_stack = stack, run_cpu = cpu,
         run_log = [Prerror stars,
                    Prerror ((''Fatal System Reset at '' @ REG (srr0 stack) @ ''   '')
                       @ summary_tail env (''Fatal System Reset at '' @ REG (srr0 stack) @ ''   '')
                           (srr0 stack) (''  MSR '' @ REG (srr1 stack)) @ nl)]
                   @ dump_regs stack\<rparr>
      else
        \<lparr>run_outcome = Returned, run_stack = stack, run_cpu = cpu,
         run_log = [Prerror stars,
                    Prerror ((''System Reset at '' @ REG (srr0 stack) @ ''   '')
                       @ summary_tail env (''System Reset at '' @ REG (srr0 stack) @ ''   '')
                           (srr0 stack) (''  MSR '' @ REG (srr1 stack)) @ nl)]
                   @ dump_regs stack @ [Backtrace]\<rparr>)"
proof -
  have r: "fault_regs stack = (False, srr0 stack, srr1 stack)"
    using t by (simp add: regs_guest hv_known)
  show ?thesis
    unfolding exception_entry_def r
    using t by (simp add: report_run length_REG NUL_def no_NUL exception_out_def)
qed

lemma entry_mce_retry:
  assumes t: "type stack = 0x200"
    and ri: "srr1 stack AND MSR_RI env \<noteq> 0"
    and lm: "\<not> vm_local_map_inuse cpu"
    and vm: "srr1 stack AND (MSR_IR env OR MSR_DR env) \<noteq> 0"
  shows "exception_entry env cpu stack =
     \<lparr>run_outcome = Returned,
      run_stack = stack\<lparr>srr1 := srr1 stack AND NOT (MSR_IR env OR MSR_DR env)\<rparr>,
      run_cpu = cpu\<lparr>vm_setup := False\<rparr>,
      run_log = [Prerror ((''Recoverable MCE with VM on at '' @ REG (srr0 stack) @ ''   '')
                   @ summary_tail env (''Recoverable MCE with VM on at '' @ REG (srr0 stack) @ ''   '')
                       (srr0 stack) (''  MSR '' @ REG (srr1 stack)) @ nl)]
                @ dump_regs stack @ [Prerror (''Continuing with VM off'' @ nl)]\<rparr>"
proof -
  have r: "fault_regs stack = (False, srr0 stack, srr1 stack)"
    using t by (simp add: regs_guest hv_known)
  show ?thesis
    unfolding exception_entry_def r
    using t ri lm vm by (simp add: mce_vm_run exception_out_def)
qed

lemma entry_mce_fatal:
  assumes t: "type stack = 0x200"
    and f: "srr1 stack AND MSR_RI env = 0 \<or> vm_local_map_inuse cpu
            \<or> srr1 stack AND (MSR_IR env OR MSR_DR env) = 0"
  shows "exception_entry env cpu stack =
     \<lparr>run_outcome = Aborted, run_stack = stack, run_cpu = cpu,
      run_log = [Prerror stars,
                 Prerror ((''Fatal MCE at '' @ REG (srr0 stack) @ ''   '')
                   @ summary_tail env (''Fatal MCE at '' @ REG (srr0 stack) @ ''   '')
                       (srr0 stack) (''  MSR '' @ REG (srr1 stack)) @ nl)]
                @ dump_regs stack\<rparr>"
proof -
  have r: "fault_regs stack = (False, srr0 stack, srr1 stack)"
    using t by (simp add: regs_guest hv_known)
  show ?thesis
    unfolding exception_entry_def r
    using t f by (auto simp add: report_run length_REG NUL_def no_NUL exception_out_def)
qed

lemma entry_default:
  assumes t: "type stack \<noteq> 0x100" "type stack \<noteq> 0x200" "type stack \<noteq> 0x300"
     "type stack \<noteq> 0x380" "type stack \<noteq> 0x400" "type stack \<noteq> 0x480"
  shows "exception_entry env cpu stack =
     \<lparr>run_outcome = Aborted, run_stack = stack, run_cpu = cpu,
      run_log = [Prerror stars,
                 Prerror ((''Fatal Exception 0x'' @ fmt_llx (type stack) @ '' at ''
                           @ REG (fst (snd (fault_regs stack))) @ ''  '')
                   @ summary_tail env (''Fatal Exception 0x'' @ fmt_llx (type stack) @ '' at ''
                           @ REG (fst (snd (fault_regs stack))) @ ''  '')
                       (fst (snd (fault_regs stack)))
                       (''  MSR '' @ REG (snd (snd (fault_regs stack)))) @ nl)]
                @ dump_regs stack\<rparr>"
proof -
  obtain hv nip msrv where r: "fault_regs stack = (hv, nip, msrv)"
    by (cases "fault_regs stack") auto
  show ?thesis
    unfolding exception_entry_def r
    using t length_fmt_llx [of "type stack"]
    by (simp add: report_run length_REG NUL_def no_NUL exception_out_def)
qed


lemma fault_resolver_type:
  "fault_resolver env cpu stack = Some r \<Longrightarrow>
     type stack = 0x300 \<or> type stack = 0x380 \<or> type stack = 0x400 \<or> type stack = 0x480"
  by (auto simp: fault_resolver_def split: if_splits)

lemma fault_resolver_regs:
  assumes "fault_resolver env cpu stack = Some r"
  shows "fault_regs stack = (False, srr0 stack, srr1 stack)"
  using fault_resolver_type [OF assms] by (auto simp: regs_guest hv_known)

lemma entry_handled:
  assumes "fault_resolver env cpu stack = Some (True, cpu')"
  shows "exception_entry env cpu stack =
           exception_out (srr1 stack AND MSR_RI env = 0) False (srr0 stack) (srr1 stack) stack cpu' []"
proof -
  note r = fault_resolver_regs [OF assms]
  from fault_resolver_type [OF assms] show ?thesis
  proof (elim disjE)
    assume t: "type stack = 0x300"
    then have "vm_dsi env cpu (srr0 stack) (dar stack) (dsisr stack AND DSISR_ISSTORE env \<noteq> 0) = (True, cpu')"
      using assms by (simp add: fault_resolver_def)
    then show ?thesis unfolding exception_entry_def r using t by simp
  next
    assume t: "type stack = 0x380"
    then have "vm_dslb env cpu (srr0 stack) (dar stack) = (True, cpu')"
      using assms by (simp add: fault_resolver_def)
    then show ?thesis unfolding exception_entry_def r using t by simp
  next
    assume t: "type stack = 0x400"
    then have "vm_isi env cpu (srr0 stack) = (True, cpu')"
      using assms by (simp add: fault_resolver_def)
    then show ?thesis unfolding exception_entry_def r using t by simp
  next
    assume t: "type stack = 0x480"
    then have "vm_islb env cpu (srr0 stack) = (True, cpu')"
      using assms by (simp add: fault_resolver_def)
    then show ?thesis unfolding exception_entry_def r using t by simp
  qed
qed

lemma entry_unhandled:
  assumes "fault_resolver env cpu stack = Some (False, cpu')"
  shows "\<exists>head. length head \<le> 319 \<and> exception_entry env cpu stack =
           \<lparr>run_outcome = Aborted, run_stack = stack, run_cpu = cpu',
            run_log = [Prerror (head @ summary_tail env head (srr0 stack)
                                  (''  MSR '' @ REG (srr1 stack)) @ nl)]
                      @ dump_regs stack\<rparr>"
proof -
  note r = fault_resolver_regs [OF assms]
  from fault_resolver_type [OF assms] show ?thesis
  proof (elim disjE)
    assume t: "type stack = 0x300"
    then have v: "vm_dsi env cpu (srr0 stack) (dar stack) (dsisr stack AND DSISR_ISSTORE env \<noteq> 0) = (False, cpu')"
      using assms by (simp add: fault_resolver_def)
    define head where "head = ''Fatal '' @ (if dsisr stack AND DSISR_ISSTORE env \<noteq> 0 then ''store'' else ''load'')
                         @ '' address '' @ REG (dar stack) @ '' at '' @ REG (srr0 stack) @ ''   ''"
    have len: "length head \<le> 319" by (simp add: head_def length_REG)
    have "exception_entry env cpu stack =
           \<lparr>run_outcome = Aborted, run_stack = stack, run_cpu = cpu',
            run_log = [Prerror (head @ summary_tail env head (srr0 stack)
                                  (''  MSR '' @ REG (srr1 stack)) @ nl)]
                      @ dump_regs stack\<rparr>"
      unfolding exception_entry_def r head_def using t v
      by (simp add: report_run length_REG NUL_def no_NUL exception_out_def)
    with len show ?thesis by blast
  next
    assume t: "type stack = 0x380"
    then have v: "vm_dslb env cpu (srr0 stack) (dar stack) = (False, cpu')"
      using assms by (simp add: fault_resolver_def)
    define head where "head = ''Fatal load/store address '' @ REG (dar stack) @ '' at ''
                         @ REG (srr0 stack) @ ''   ''"
    have len: "length head \<le> 319" by (simp add: head_def length_REG)
    have "exception_entry env cpu stack =
           \<lparr>run_outcome = Aborted, run_stack = stack, run_cpu = cpu',
            run_log = [Prerror (head @ summary_tail env head (srr0 stack)
                                  (''  MSR '' @ REG (srr1 stack)) @ nl)]
                      @ dump_regs stack\<rparr>"
      unfolding exception_entry_def r head_def using t v
      by (simp add: report_run length_REG NUL_def no_NUL exception_out_def)
    with len show ?thesis by blast
  next
    assume t: "type stack = 0x400"
    then have v: "vm_isi env cpu (srr0 stack) = (False, cpu')"
      using assms by (simp add: fault_resolver_def)
    define head where "head = ''Fatal ifetch at '' @ REG (srr0 stack) @ ''   ''"
    have len: "length head \<le> 319" by (simp add: head_def length_REG)
    have "exception_entry env cpu stack =
           \<lparr>run_outcome = Aborted, run_stack = stack, run_cpu = cpu',
            run_log = [Prerror (head @ summary_tail env head (srr0 stack)
                                  (''  MSR '' @ REG (srr1 stack)) @ nl)]
                      @ dump_regs stack\<rparr>"
      unfolding exception_entry_def r head_def using t v
      by (simp add: report_run length_REG NUL_def no_NUL exception_out_def)
    with len show ?thesis by blast
  next
    assume t: "type stack = 0x480"
    then have v: "vm_islb env cpu (srr0 stack) = (False, cpu')"
      using assms by (simp add: fault_resolver_def)
    define head where "head = ''Fatal ifetch at '' @ REG (srr0 stack) @ ''   ''"
    have len: "length head \<le> 319" by (simp add: head_def length_REG)
    have "exception_entry env cpu stack =
           \<lparr>run_outcome = Aborted, run_stack = stack, run_cpu = cpu',
            run_log = [Prerror (head @ summary_tail env head (srr0 stack)
                                  (''  MSR '' @ REG (srr1 stack)) @ nl)]
                      @ dump_regs stack\<rparr>"
      unfolding exception_entry_def r head_def using t v
      by (simp add: report_run length_REG NUL_def no_NUL exception_out_def)
    with len show ?thesis by blast
  qed
qed

lemma summary_tail_bound: "length (summary_tail env head a rest) \<le> 319 - length head"
proof -
  define t where "t = symbol_text env (length head) a"
  define u where "u = take (319 - length (head @ t)) rest"
  have t: "length t \<le> 319 - length head"
    by (simp add: t_def symbol_text_def split: option.split)
  have u: "length u \<le> 319 - length head - length t" by (simp add: u_def)
  have "summary_tail env head a rest = takeWhile (\<lambda>c. c \<noteq> NUL) (t @ u)"
    by (simp add: summary_tail_def t_def u_def Let_def)
  then have "length (summary_tail env head a rest) \<le> length (t @ u)"
    using length_takeWhile_le [of "\<lambda>c. c \<noteq> NUL" "t @ u"] by simp
  with t u show ?thesis by simp
qed

lemma summary_line_length:
  "length head \<le> 319 \<Longrightarrow> line_length (Prerror (head @ summary_tail env head a rest @ nl)) \<le> 320"
  using summary_tail_bound [of env head a rest] by (simp add: nl_def)


lemma length_dec_nat: "n < 100 \<Longrightarrow> length (dec_nat n) \<le> 2"
proof -
  assume n: "n < 100"
  then have d: "n div 10 < 10" by simp
  have "length (dec_nat (n div 10)) = 1" using d by (simp add: dec_nat.simps [of "n div 10"])
  then show ?thesis by (simp add: dec_nat.simps [of n])
qed

lemma length_fmt_02d: "n < 100 \<Longrightarrow> length (fmt_02d n) = 2"
  using length_dec_nat [of n] by (simp add: fmt_02d_def zero_pad_def)

lemma dump_regs_lines: "e \<in> set (dump_regs stack) \<Longrightarrow> line_length e \<le> 320 \<and> e \<noteq> Backtrace \<and> \<not> mce_notice e"
  by (auto simp: dump_regs_def length_REG length_REG32 length_fmt_02d nl_def)

lemma demo_hex: "hex_nat 805311028 = ''30001234''" "hex_nat 1792 = ''700''" "hex_nat 2 = ''2''"
  by (simp_all add: hex_nat.simps hex_digit_def)

lemma demo_pad: "zero_pad 16 ''30001234'' = ''0000000030001234''"
  "zero_pad 16 ''2'' = ''0000000000000002''"
  by code_simp+

lemma demo_REG: "REG 0x30001234 = ''0000000030001234''" "fmt_llx 0x700 = ''700''"
  "REG 0x2 = ''0000000000000002''"
  by (simp_all add: REG_def fmt_llx_def demo_hex demo_pad)

lemma vector_cases [case_names reset mce_retry mce_fatal handled unhandled default]:
  obtains "type stack = 0x100"
  | "type stack = 0x200" "srr1 stack AND MSR_RI env \<noteq> 0" "\<not> vm_local_map_inuse cpu"
      "srr1 stack AND (MSR_IR env OR MSR_DR env) \<noteq> 0"
  | "type stack = 0x200" "srr1 stack AND MSR_RI env = 0 \<or> vm_local_map_inuse cpu
            \<or> srr1 stack AND (MSR_IR env OR MSR_DR env) = 0"
  | cpu' where "fault_resolver env cpu stack = Some (True, cpu')"
  | cpu' where "fault_resolver env cpu stack = Some (False, cpu')"
  | "type stack \<noteq> 0x100" "type stack \<noteq> 0x200" "type stack \<noteq> 0x300"
     "type stack \<noteq> 0x380" "type stack \<noteq> 0x400" "type stack \<noteq> 0x480"
proof (cases "fault_resolver env cpu stack")
  case None
  then have "type stack \<noteq> 0x300" "type stack \<noteq> 0x380" "type stack \<noteq> 0x400" "type stack \<noteq> 0x480"
    by (auto simp: fault_resolver_def split: if_splits)
  then show ?thesis using that(1,2,3,6) by blast
next
  case (Some r)
  then show ?thesis using that(4,5) by (cases r) (cases "fst r", auto)
qed

lemma out_hv_rewrite:
  "exception_out False True nip msrv stack cpu evs =
     \<lparr>run_outcome = Returned, run_stack = stack\<lparr>srr0 := nip, srr1 := msrv\<rparr>,
      run_cpu = cpu, run_log = evs\<rparr>"
  by (simp add: exception_out_def)

lemma stars_length: "line_length (Prerror stars) \<le> 320"
  by (simp add: stars_def nl_def)

lemma mce_vm_lines:
  "\<exists>evs. print_recoverable_mce_vm env stack nip msrv = Some evs \<and>
         (\<forall>e\<in>set evs. line_length e \<le> 320)"
proof -
  define head where "head = ''Recoverable MCE with VM on at '' @ REG nip @ ''   ''"
  have len: "length head \<le> 319" by (simp add: head_def length_REG)
  have "print_recoverable_mce_vm env stack nip msrv =
     Some ([Prerror (head @ summary_tail env head nip (''  MSR '' @ REG msrv) @ nl)]
           @ dump_regs stack @ [Prerror (''Continuing with VM off'' @ nl)])"
    unfolding head_def by (rule mce_vm_run)
  moreover have "\<forall>e\<in>set ([Prerror (head @ summary_tail env head nip (''  MSR '' @ REG msrv) @ nl)]
           @ dump_regs stack @ [Prerror (''Continuing with VM off'' @ nl)]). line_length e \<le> 320"
    using summary_line_length [OF len, of env nip "''  MSR '' @ REG msrv"] dump_regs_lines [of _ stack]
    by (auto simp: nl_def)
  ultimately show ?thesis by blast
qed

lemma report_lines:
  assumes "length head \<le> 319" and "\<forall>e\<in>set evs. line_length e \<le> 320"
  shows "\<forall>e\<in>set (evs @ [Prerror (head @ summary_tail env head a rest @ nl)] @ dump_regs stack @ bt).
            e \<in> set bt \<or> line_length e \<le> 320"
  using summary_line_length [OF assms(1), of env a rest] dump_regs_lines [of _ stack] assms(2)
  by auto

lemma summary_tail_long:
  assumes "get_symbol env a = Some name" and "319 \<le> length head + length name"
    and "NUL \<notin> set name" and "length head \<le> 319"
  shows "length (summary_tail env head a rest) = 319 - length head"
proof -
  define t where "t = take (319 - length head) name"
  have lt: "length t = 319 - length head" using assms(2,4) by (simp add: t_def)
  have "set t \<subseteq> set name" unfolding t_def by (rule set_take_subset)
  then have nn: "\<And>c. c \<in> set t \<Longrightarrow> c \<noteq> NUL" using assms(3) by auto
  have "summary_tail env head a rest = takeWhile (\<lambda>c. c \<noteq> NUL) (t @ take (319 - length (head @ t)) rest)"
    using assms(1) by (simp add: summary_tail_def symbol_text_def t_def)
  also have "take (319 - length (head @ t)) rest = []" using lt assms(4) by simp
  finally have "summary_tail env head a rest = t" using nn by simp
  then show ?thesis using lt by simp
qed

lemma summary_tail_no_symbol:
  assumes "get_symbol env a = None" and "length head + length rest \<le> 319" and "NUL \<notin> set rest"
  shows "summary_tail env head a rest = rest"
proof -
  have "\<And>c. c \<in> set rest \<Longrightarrow> c \<noteq> NUL" using assms(3) by auto
  then show ?thesis using assms(1,2) by (simp add: summary_tail_def symbol_text_def)
qed

section \<open>The claims\<close>

text \<open>
  C1. For a trap that is not one of the four storage/segment fault vectors, a clear
  \<^verbatim>\<open>MSR_RI\<close> bit in the mode word of the selected register pair makes \<^verbatim>\<open>exception_entry\<close>
  end in \<^verbatim>\<open>abort()\<close>, whatever the other fields of the snapshot and the CPU-local
  flags are.
\<close>

theorem unrecoverable_is_fatal:
  assumes "type stack \<notin> {0x300, 0x380, 0x400, 0x480}"
    and "(if exception_hv (type stack) then hsrr1 stack else srr1 stack) AND MSR_RI env = 0"
  shows "run_outcome (exception_entry env cpu stack) = Aborted"
proof -
  consider "type stack = 0x100" | "type stack = 0x200"
    | "type stack \<noteq> 0x100" "type stack \<noteq> 0x200" by blast
  then show ?thesis
  proof cases
    case 1
    then show ?thesis using assms(2) by (simp add: entry_reset hv_known)
  next
    case 2
    then have "srr1 stack AND MSR_RI env = 0" using assms(2) by (simp add: hv_known)
    then show ?thesis using 2 by (simp add: entry_mce_fatal)
  next
    case 3
    then show ?thesis using assms(1) by (simp add: entry_default)
  qed
qed

text \<open>The reset vector with \<^verbatim>\<open>srr1\<close> = 0 is such a trap.\<close>

theorem unrecoverable_is_fatal_witness:
  "type (demo_frame 0x100 0) \<notin> {0x300, 0x380, 0x400, 0x480} \<and>
   (if exception_hv (type (demo_frame 0x100 0)) then hsrr1 (demo_frame 0x100 0)
    else srr1 (demo_frame 0x100 0)) AND MSR_RI (demo_env True None) = 0 \<and>
   run_outcome (exception_entry (demo_env True None) (demo_cpu False) (demo_frame 0x100 0)) = Aborted"
proof -
  have 1: "type (demo_frame 0x100 0) \<notin> {0x300, 0x380, 0x400, 0x480}"
    by (simp add: demo_frame_def)
  have 2: "(if exception_hv (type (demo_frame 0x100 0)) then hsrr1 (demo_frame 0x100 0)
    else srr1 (demo_frame 0x100 0)) AND MSR_RI (demo_env True None) = 0"
    by (simp add: demo_frame_def demo_env_def exception_hv_def)
  show ?thesis
    using 1 2 unrecoverable_is_fatal [OF 1 2, of "demo_cpu False"] by blast
qed

text \<open>
  C2. A machine check (0x200) with \<^verbatim>\<open>MSR_RI\<close> set, \<^verbatim>\<open>vm_local_map_inuse\<close> clear and one of
  \<^verbatim>\<open>MSR_IR\<close>, \<^verbatim>\<open>MSR_DR\<close> set returns: it prints the notice of \<^verbatim>\<open>print_recoverable_mce_vm\<close>
  once (the summary line, the register dump of the unchanged snapshot, the closing
  line), leaves \<^verbatim>\<open>srr0\<close> alone, clears exactly \<^verbatim>\<open>MSR_IR\<close> and \<^verbatim>\<open>MSR_DR\<close> in \<^verbatim>\<open>srr1\<close> and
  clears \<^verbatim>\<open>vm_setup\<close>.
\<close>

theorem mce_degraded_retry:
  assumes "type stack = 0x200"
    and "srr1 stack AND MSR_RI env \<noteq> 0"
    and "\<not> vm_local_map_inuse cpu"
    and "srr1 stack AND (MSR_IR env OR MSR_DR env) \<noteq> 0"
  shows "run_outcome (exception_entry env cpu stack) = Returned
       \<and> run_stack (exception_entry env cpu stack)
           = stack\<lparr>srr1 := srr1 stack AND NOT (MSR_IR env OR MSR_DR env)\<rparr>
       \<and> srr0 (run_stack (exception_entry env cpu stack)) = srr0 stack
       \<and> run_cpu (exception_entry env cpu stack) = cpu\<lparr>vm_setup := False\<rparr>
       \<and> run_log (exception_entry env cpu stack)
           = [Prerror ((''Recoverable MCE with VM on at '' @ REG (srr0 stack) @ ''   '')
                @ summary_tail env (''Recoverable MCE with VM on at '' @ REG (srr0 stack) @ ''   '')
                    (srr0 stack) (''  MSR '' @ REG (srr1 stack)) @ nl)]
             @ dump_regs stack @ [Prerror (''Continuing with VM off'' @ nl)]
       \<and> length (filter mce_notice (run_log (exception_entry env cpu stack))) = 1"
proof -
  have "filter mce_notice (dump_regs stack) = []"
    using dump_regs_lines [of _ stack] by (simp add: filter_empty_conv)
  then show ?thesis
    by (simp add: entry_mce_retry [OF assms] nl_def)
qed

text \<open>
  A machine check with \<^verbatim>\<open>srr1\<close> = 0x32, that is \<^verbatim>\<open>MSR_RI\<close>, \<^verbatim>\<open>MSR_IR\<close> and \<^verbatim>\<open>MSR_DR\<close> set: it
  resumes with \<^verbatim>\<open>srr1\<close> = 0x2.
\<close>

theorem mce_degraded_retry_witness:
  "type (demo_frame 0x200 0x32) = 0x200 \<and>
   srr1 (demo_frame 0x200 0x32) AND MSR_RI (demo_env True None) \<noteq> 0 \<and>
   \<not> vm_local_map_inuse (demo_cpu False) \<and>
   srr1 (demo_frame 0x200 0x32) AND (MSR_IR (demo_env True None) OR MSR_DR (demo_env True None)) \<noteq> 0 \<and>
   run_outcome (exception_entry (demo_env True None) (demo_cpu False) (demo_frame 0x200 0x32)) = Returned \<and>
   srr0 (run_stack (exception_entry (demo_env True None) (demo_cpu False) (demo_frame 0x200 0x32))) = 0x30001234 \<and>
   srr1 (run_stack (exception_entry (demo_env True None) (demo_cpu False) (demo_frame 0x200 0x32))) = 0x2 \<and>
   \<not> vm_setup (run_cpu (exception_entry (demo_env True None) (demo_cpu False) (demo_frame 0x200 0x32))) \<and>
   length (filter mce_notice
     (run_log (exception_entry (demo_env True None) (demo_cpu False) (demo_frame 0x200 0x32)))) = 1"
proof -
  have 1: "type (demo_frame 0x200 0x32) = 0x200" by (simp add: demo_frame_def)
  have 2: "srr1 (demo_frame 0x200 0x32) AND MSR_RI (demo_env True None) \<noteq> 0"
    by (simp add: demo_frame_def demo_env_def)
  have 3: "\<not> vm_local_map_inuse (demo_cpu False)" by (simp add: demo_cpu_def)
  have 4: "srr1 (demo_frame 0x200 0x32) AND (MSR_IR (demo_env True None) OR MSR_DR (demo_env True None)) \<noteq> 0"
    by (simp add: demo_frame_def demo_env_def)
  have 5: "srr1 (demo_frame 0x200 0x32) AND NOT (MSR_IR (demo_env True None) OR MSR_DR (demo_env True None)) = 0x2"
    by (simp add: demo_frame_def demo_env_def)
  have 6: "srr0 (demo_frame 0x200 0x32) = 0x30001234" by (simp add: demo_frame_def)
  note r = mce_degraded_retry [OF 1 2 3 4]
  note out = r [THEN conjunct1]
  have s0: "srr0 (run_stack (exception_entry (demo_env True None) (demo_cpu False)
              (demo_frame 0x200 0x32))) = 0x30001234"
    using r [THEN conjunct2, THEN conjunct2, THEN conjunct1] by (simp add: 6)
  have s1: "srr1 (run_stack (exception_entry (demo_env True None) (demo_cpu False)
              (demo_frame 0x200 0x32))) = 0x2"
    using r [THEN conjunct2, THEN conjunct1] by (simp add: demo_frame_def demo_env_def)
  have vs: "\<not> vm_setup (run_cpu (exception_entry (demo_env True None) (demo_cpu False)
              (demo_frame 0x200 0x32)))"
    using r [THEN conjunct2, THEN conjunct2, THEN conjunct2, THEN conjunct1] by simp
  note one = r [THEN conjunct2, THEN conjunct2, THEN conjunct2, THEN conjunct2, THEN conjunct2]
  show ?thesis
    using 1 2 3 4 out s0 s1 vs one by blast
qed

text \<open>
  C3 as stated, that a handled fault never ends in \<^verbatim>\<open>abort()\<close> even with \<^verbatim>\<open>MSR_RI\<close>
  clear, fails for a data storage fault with \<^verbatim>\<open>srr1\<close> = 0 whose resolver answers
  "handled".
\<close>

theorem handled_fault_aborts_counterexample:
  "fault_resolver (demo_env True None) (demo_cpu False) (demo_frame 0x300 0) = Some (True, demo_cpu False) \<and>
   run_outcome (exception_entry (demo_env True None) (demo_cpu False) (demo_frame 0x300 0)) = Aborted"
proof -
  have r: "fault_resolver (demo_env True None) (demo_cpu False) (demo_frame 0x300 0)
             = Some (True, demo_cpu False)"
    by (simp add: fault_resolver_def demo_env_def demo_frame_def)
  have "srr1 (demo_frame 0x300 0) AND MSR_RI (demo_env True None) = 0"
    by (simp add: demo_env_def demo_frame_def)
  then have "run_outcome (exception_entry (demo_env True None) (demo_cpu False) (demo_frame 0x300 0)) = Aborted"
    by (simp add: entry_handled [OF r] exception_out_def)
  with r show ?thesis by blast
qed

text \<open>
  C3, as amended. When the matching resolver of a storage/segment fault (0x300, 0x380,
  0x400, 0x480) answers "handled", \<^verbatim>\<open>exception_entry\<close> prints nothing and leaves the
  snapshot alone, for every snapshot; it returns exactly when \<^verbatim>\<open>MSR_RI\<close> is set in
  \<^verbatim>\<open>srr1\<close>. With \<^verbatim>\<open>MSR_RI\<close> clear, \<^verbatim>\<open>fatal\<close> is already set when the \<^verbatim>\<open>goto out\<close> reaches
  \<^verbatim>\<open>if (fatal) abort()\<close>.
\<close>

theorem handled_fault_is_silent:
  assumes "fault_resolver env cpu stack = Some (True, cpu')"
  shows "run_log (exception_entry env cpu stack) = []
       \<and> run_stack (exception_entry env cpu stack) = stack
       \<and> run_cpu (exception_entry env cpu stack) = cpu'
       \<and> run_outcome (exception_entry env cpu stack)
           = (if srr1 stack AND MSR_RI env = 0 then Aborted else Returned)"
  by (simp add: entry_handled [OF assms] exception_out_def)

text \<open>A handled data storage fault with \<^verbatim>\<open>MSR_RI\<close> set returns silently.\<close>

theorem handled_fault_is_silent_witness:
  "fault_resolver (demo_env True None) (demo_cpu False) (demo_frame 0x300 0x2) = Some (True, demo_cpu False) \<and>
   run_log (exception_entry (demo_env True None) (demo_cpu False) (demo_frame 0x300 0x2)) = [] \<and>
   run_outcome (exception_entry (demo_env True None) (demo_cpu False) (demo_frame 0x300 0x2)) = Returned"
proof -
  have r: "fault_resolver (demo_env True None) (demo_cpu False) (demo_frame 0x300 0x2)
             = Some (True, demo_cpu False)"
    by (simp add: fault_resolver_def demo_env_def demo_frame_def)
  have ri: "srr1 (demo_frame 0x300 0x2) AND MSR_RI (demo_env True None) \<noteq> 0"
    by (simp add: demo_env_def demo_frame_def)
  note h = handled_fault_is_silent [OF r]
  have "run_outcome (exception_entry (demo_env True None) (demo_cpu False) (demo_frame 0x300 0x2)) = Returned"
    using h [THEN conjunct2, THEN conjunct2, THEN conjunct2] ri by simp
  with r h [THEN conjunct1] show ?thesis by blast
qed

text \<open>
  C4 as stated puts the reset and the machine check among the traps read from the
  hypervisor pair. For both, the classifier clears \<^verbatim>\<open>hv\<close> and gives \<^verbatim>\<open>srr0\<close> and \<^verbatim>\<open>srr1\<close>,
  here different from \<^verbatim>\<open>hsrr0\<close> and \<^verbatim>\<open>hsrr1\<close>.
\<close>

theorem reset_mce_hypervisor_pair_counterexample:
  "fault_regs (demo_frame 0x100 0x32) = (False, 0x30001234, 0x32) \<and>
   fault_regs (demo_frame 0x200 0x32) = (False, 0x30001234, 0x32) \<and>
   (hsrr0 (demo_frame 0x100 0x32), hsrr1 (demo_frame 0x100 0x32)) = (0x30005678, 0x2)"
  by (simp add: fault_regs_def exception_hv_def demo_frame_def)

text \<open>
  C4, as amended. The classifier sets \<^verbatim>\<open>hv\<close>, and reads \<^verbatim>\<open>hsrr0\<close>/\<^verbatim>\<open>hsrr1\<close>, exactly for the
  nine vectors 0x500, 0x980, 0xe00, 0xe20, 0xe40, 0xe60, 0xe80, 0xea0 and 0xf80. Every
  other identifier, the reset (0x100) and the machine check (0x200) among them, reads
  \<^verbatim>\<open>srr0\<close>/\<^verbatim>\<open>srr1\<close>; so it is the \<^verbatim>\<open>MSR_RI\<close> bit of \<^verbatim>\<open>srr1\<close> that decides whether a reset
  returns.
\<close>

theorem fault_regs_classifier:
  "fault_regs stack =
     (if type stack \<in> {0x500, 0x980, 0xe00, 0xe20, 0xe40, 0xe60, 0xe80, 0xea0, 0xf80}
      then (True, hsrr0 stack, hsrr1 stack) else (False, srr0 stack, srr1 stack))
   \<and> (type stack = 0x100 \<or> type stack = 0x200 \<longrightarrow>
        fault_regs stack = (False, srr0 stack, srr1 stack))
   \<and> (type stack = 0x100 \<longrightarrow>
        run_outcome (exception_entry env cpu stack)
          = (if srr1 stack AND MSR_RI env = 0 then Aborted else Returned))"
  by (auto simp: fault_regs_def exception_hv_def entry_reset)

text \<open>A reset whose \<^verbatim>\<open>srr1\<close> has \<^verbatim>\<open>MSR_RI\<close> set.\<close>

theorem fault_regs_classifier_witness:
  "type (demo_frame 0x100 0x2) = 0x100 \<and>
   fault_regs (demo_frame 0x100 0x2) = (False, 0x30001234, 0x2) \<and>
   run_outcome (exception_entry (demo_env True None) (demo_cpu False) (demo_frame 0x100 0x2)) = Returned"
proof -
  have t: "type (demo_frame 0x100 0x2) = 0x100" by (simp add: demo_frame_def)
  have s: "srr0 (demo_frame 0x100 0x2) = 0x30001234" "srr1 (demo_frame 0x100 0x2) = 0x2"
    by (simp_all add: demo_frame_def)
  have ri: "srr1 (demo_frame 0x100 0x2) AND MSR_RI (demo_env True None) \<noteq> 0"
    by (simp add: demo_env_def demo_frame_def)
  note c = fault_regs_classifier [of "demo_frame 0x100 0x2" "demo_env True None" "demo_cpu False"]
  have "fault_regs (demo_frame 0x100 0x2) = (False, 0x30001234, 0x2)"
    using c [THEN conjunct2, THEN conjunct1] t s by simp
  moreover have "run_outcome (exception_entry (demo_env True None) (demo_cpu False) (demo_frame 0x100 0x2)) = Returned"
    using c [THEN conjunct2, THEN conjunct2] t ri by simp
  ultimately show ?thesis using t by blast
qed

text \<open>
  C5 as stated has the resume of a hypervisor-context trap, the reset and the machine
  check among them, overwrite \<^verbatim>\<open>srr0\<close>/\<^verbatim>\<open>srr1\<close> from the hypervisor pair. A reset with
  \<^verbatim>\<open>MSR_RI\<close> set in \<^verbatim>\<open>srr1\<close> returns with \<^verbatim>\<open>srr0\<close> and \<^verbatim>\<open>srr1\<close> as they came, here different
  from \<^verbatim>\<open>hsrr0\<close> and \<^verbatim>\<open>hsrr1\<close>.
\<close>

theorem reset_resume_keeps_srr_counterexample:
  "run_outcome (exception_entry (demo_env True None) (demo_cpu False) (demo_frame 0x100 0x32)) = Returned \<and>
   srr0 (run_stack (exception_entry (demo_env True None) (demo_cpu False) (demo_frame 0x100 0x32)))
     = 0x30001234 \<and>
   srr1 (run_stack (exception_entry (demo_env True None) (demo_cpu False) (demo_frame 0x100 0x32)))
     = 0x32 \<and>
   hsrr0 (demo_frame 0x100 0x32) = 0x30005678 \<and> hsrr1 (demo_frame 0x100 0x32) = 0x2"
proof -
  have t: "type (demo_frame 0x100 0x32) = 0x100" by (simp add: demo_frame_def)
  have ri: "srr1 (demo_frame 0x100 0x32) AND MSR_RI (demo_env True None) \<noteq> 0"
    by (simp add: demo_frame_def demo_env_def)
  have "run_outcome (exception_entry (demo_env True None) (demo_cpu False) (demo_frame 0x100 0x32)) = Returned"
    "run_stack (exception_entry (demo_env True None) (demo_cpu False) (demo_frame 0x100 0x32))
       = demo_frame 0x100 0x32"
    using ri by (simp_all add: entry_reset [OF t])
  then show ?thesis by (simp add: demo_frame_def)
qed

text \<open>
  C5, as amended. The code after \<^verbatim>\<open>out:\<close>, reached with \<^verbatim>\<open>hv\<close> set and \<^verbatim>\<open>fatal\<close> clear,
  overwrites \<^verbatim>\<open>srr0\<close> and \<^verbatim>\<open>srr1\<close> with \<^verbatim>\<open>nip\<close> and \<^verbatim>\<open>msr\<close>. But \<^verbatim>\<open>hv\<close> is set for the nine
  vectors of the first \<^verbatim>\<open>switch\<close> only, and none of them returns: every run that returns
  has \<^verbatim>\<open>hv\<close> clear (the reset, the retried machine check, a handled storage or segment
  fault), and its snapshot is the incoming one, both register pairs included, except
  that the retry of a machine check has cleared \<^verbatim>\<open>MSR_IR\<close> and \<^verbatim>\<open>MSR_DR\<close> in \<^verbatim>\<open>srr1\<close>.
\<close>

theorem resume_snapshot:
  assumes "run_outcome (exception_entry env cpu stack) = Returned"
  shows "\<not> exception_hv (type stack)
       \<and> run_stack (exception_entry env cpu stack) =
           (if type stack = 0x200
              then stack\<lparr>srr1 := srr1 stack AND NOT (MSR_IR env OR MSR_DR env)\<rparr>
            else stack)
       \<and> exception_out False True nip msrv st c evs =
           \<lparr>run_outcome = Returned, run_stack = st\<lparr>srr0 := nip, srr1 := msrv\<rparr>,
            run_cpu = c, run_log = evs\<rparr>"
proof -
  have run: "\<not> exception_hv (type stack)
       \<and> run_stack (exception_entry env cpu stack) =
           (if type stack = 0x200
              then stack\<lparr>srr1 := srr1 stack AND NOT (MSR_IR env OR MSR_DR env)\<rparr>
            else stack)"
  proof (cases rule: vector_cases [where stack = stack and env = env and cpu = cpu])
    case reset
    then show ?thesis by (simp add: entry_reset hv_known)
  next
    case mce_retry
    then show ?thesis by (simp add: entry_mce_retry hv_known)
  next
    case mce_fatal
    then show ?thesis using assms by (simp add: entry_mce_fatal)
  next
    case (handled cpu')
    have "\<not> exception_hv (type stack)" "type stack \<noteq> 0x200"
      using fault_resolver_type [OF handled] by (auto simp: hv_known)
    then show ?thesis
      using assms by (simp add: entry_handled [OF handled] exception_out_def split: if_splits)
  next
    case (unhandled cpu')
    obtain head where "exception_entry env cpu stack =
           \<lparr>run_outcome = Aborted, run_stack = stack, run_cpu = cpu',
            run_log = [Prerror (head @ summary_tail env head (srr0 stack)
                                  (''  MSR '' @ REG (srr1 stack)) @ nl)]
                      @ dump_regs stack\<rparr>"
      using entry_unhandled [OF unhandled] by blast
    then show ?thesis using assms by simp
  next
    case default
    then show ?thesis using assms by (simp add: entry_default)
  qed
  then show ?thesis using out_hv_rewrite [of nip msrv st c evs] by simp
qed

text \<open>
  The machine check that is retried returns with \<^verbatim>\<open>hv\<close> clear, \<^verbatim>\<open>srr1\<close> = 0x2 and the rest
  untouched; the code after \<^verbatim>\<open>out:\<close>, run on the same snapshot with \<^verbatim>\<open>hv\<close> set, writes
  \<^verbatim>\<open>nip\<close> and \<^verbatim>\<open>msr\<close>.
\<close>

theorem resume_snapshot_witness:
  "run_outcome (exception_entry (demo_env True None) (demo_cpu False) (demo_frame 0x200 0x32)) = Returned \<and>
   \<not> exception_hv (type (demo_frame 0x200 0x32)) \<and>
   srr0 (run_stack (exception_entry (demo_env True None) (demo_cpu False) (demo_frame 0x200 0x32))) = 0x30001234 \<and>
   srr1 (run_stack (exception_entry (demo_env True None) (demo_cpu False) (demo_frame 0x200 0x32))) = 0x2 \<and>
   hsrr0 (run_stack (exception_entry (demo_env True None) (demo_cpu False) (demo_frame 0x200 0x32))) = 0x30005678 \<and>
   hsrr1 (run_stack (exception_entry (demo_env True None) (demo_cpu False) (demo_frame 0x200 0x32))) = 0x2 \<and>
   srr0 (run_stack (exception_out False True 0x30005678 0x2 (demo_frame 0x200 0x32) (demo_cpu False) []))
     = 0x30005678 \<and>
   srr1 (run_stack (exception_out False True 0x30005678 0x2 (demo_frame 0x200 0x32) (demo_cpu False) []))
     = 0x2"
proof -
  have t: "type (demo_frame 0x200 0x32) = 0x200" by (simp add: demo_frame_def)
  have o: "run_outcome (exception_entry (demo_env True None) (demo_cpu False) (demo_frame 0x200 0x32)) = Returned"
    by (simp add: entry_mce_retry demo_frame_def demo_env_def demo_cpu_def)
  note r = resume_snapshot [OF o, of "0x30005678" "0x2" "demo_frame 0x200 0x32" "demo_cpu False" "[]"]
  note hv = r [THEN conjunct1]
  have st: "run_stack (exception_entry (demo_env True None) (demo_cpu False) (demo_frame 0x200 0x32))
          = (demo_frame 0x200 0x32)\<lparr>srr1 := 0x2\<rparr>"
    using r [THEN conjunct2, THEN conjunct1] t by (simp add: demo_frame_def demo_env_def)
  have ex: "srr0 (run_stack (exception_out False True 0x30005678 0x2 (demo_frame 0x200 0x32) (demo_cpu False) []))
     = 0x30005678"
    "srr1 (run_stack (exception_out False True 0x30005678 0x2 (demo_frame 0x200 0x32) (demo_cpu False) []))
     = 0x2"
    by (simp_all add: r [THEN conjunct2, THEN conjunct2])
  have f: "srr0 (run_stack (exception_entry (demo_env True None) (demo_cpu False)
              (demo_frame 0x200 0x32))) = 0x30001234"
    "srr1 (run_stack (exception_entry (demo_env True None) (demo_cpu False)
              (demo_frame 0x200 0x32))) = 0x2"
    "hsrr0 (run_stack (exception_entry (demo_env True None) (demo_cpu False)
              (demo_frame 0x200 0x32))) = 0x30005678"
    "hsrr1 (run_stack (exception_entry (demo_env True None) (demo_cpu False)
              (demo_frame 0x200 0x32))) = 0x2"
    using st by (simp_all add: demo_frame_def)
  show ?thesis using o hv ex f by blast
qed

text \<open>
  C6. A machine check (0x200) taken while \<^verbatim>\<open>vm_local_map_inuse\<close> is set ends in
  \<^verbatim>\<open>abort()\<close>, for every mode word.
\<close>

theorem mce_local_map_is_fatal:
  assumes "type stack = 0x200" and "vm_local_map_inuse cpu"
  shows "run_outcome (exception_entry env cpu stack) = Aborted"
  using assms by (simp add: entry_mce_fatal)

text \<open>
  The instance with \<^verbatim>\<open>MSR_RI\<close> set and both translation bits clear, the one the claim
  singles out.
\<close>

theorem mce_local_map_is_fatal_witness:
  "type (demo_frame 0x200 0x2) = 0x200 \<and> vm_local_map_inuse (demo_cpu True) \<and>
   srr1 (demo_frame 0x200 0x2) AND MSR_RI (demo_env True None) \<noteq> 0 \<and>
   srr1 (demo_frame 0x200 0x2) AND (MSR_IR (demo_env True None) OR MSR_DR (demo_env True None)) = 0 \<and>
   run_outcome (exception_entry (demo_env True None) (demo_cpu True) (demo_frame 0x200 0x2)) = Aborted"
proof -
  have 1: "type (demo_frame 0x200 0x2) = 0x200" by (simp add: demo_frame_def)
  have 2: "vm_local_map_inuse (demo_cpu True)" by (simp add: demo_cpu_def)
  have 3: "srr1 (demo_frame 0x200 0x2) AND MSR_RI (demo_env True None) \<noteq> 0"
    by (simp add: demo_frame_def demo_env_def)
  have 4: "srr1 (demo_frame 0x200 0x2) AND (MSR_IR (demo_env True None) OR MSR_DR (demo_env True None)) = 0"
    by (simp add: demo_frame_def demo_env_def)
  show ?thesis
    using 1 2 3 4 mce_local_map_is_fatal [OF 1 2, of "demo_env True None"] by blast
qed

text \<open>
  C7. A run that ends in \<^verbatim>\<open>abort()\<close> has not written to the snapshot (neither the
  clearing of the translation bits nor the rewrite of \<^verbatim>\<open>srr0\<close>/\<^verbatim>\<open>srr1\<close> has happened
  when \<^verbatim>\<open>abort()\<close> is called) and has not called \<^verbatim>\<open>backtrace()\<close>.
\<close>

theorem fatal_leaves_snapshot:
  assumes "run_outcome (exception_entry env cpu stack) = Aborted"
  shows "run_stack (exception_entry env cpu stack) = stack
       \<and> Backtrace \<notin> set (run_log (exception_entry env cpu stack))"
proof -
  have nb: "Backtrace \<notin> set (dump_regs stack)" using dump_regs_lines [of Backtrace stack] by blast
  show ?thesis
  proof (cases rule: vector_cases [where stack = stack and env = env and cpu = cpu])
    case reset
    then show ?thesis using assms nb by (simp add: entry_reset split: if_splits)
  next
    case mce_retry
    then show ?thesis using assms by (simp add: entry_mce_retry)
  next
    case mce_fatal
    then show ?thesis using nb by (simp add: entry_mce_fatal)
  next
    case (handled cpu')
    then show ?thesis by (simp add: entry_handled [OF handled] exception_out_def)
  next
    case (unhandled cpu')
    obtain head where "exception_entry env cpu stack =
           \<lparr>run_outcome = Aborted, run_stack = stack, run_cpu = cpu',
            run_log = [Prerror (head @ summary_tail env head (srr0 stack)
                                  (''  MSR '' @ REG (srr1 stack)) @ nl)]
                      @ dump_regs stack\<rparr>"
      using entry_unhandled [OF unhandled] by blast
    then show ?thesis using nb by simp
  next
    case default
    then show ?thesis using nb by (simp add: entry_default)
  qed
qed

text \<open>A machine check with the local map in use: fatal, snapshot as it came.\<close>

theorem fatal_leaves_snapshot_witness:
  "run_outcome (exception_entry (demo_env True None) (demo_cpu True) (demo_frame 0x200 0x32)) = Aborted \<and>
   run_stack (exception_entry (demo_env True None) (demo_cpu True) (demo_frame 0x200 0x32))
     = demo_frame 0x200 0x32 \<and>
   Backtrace \<notin> set (run_log (exception_entry (demo_env True None) (demo_cpu True) (demo_frame 0x200 0x32)))"
proof -
  have o: "run_outcome (exception_entry (demo_env True None) (demo_cpu True) (demo_frame 0x200 0x32)) = Aborted"
    by (simp add: entry_mce_fatal demo_frame_def demo_cpu_def)
  show ?thesis using o fatal_leaves_snapshot [OF o] by blast
qed

text \<open>
  C8. With \<^verbatim>\<open>snprintf\<close> and \<^verbatim>\<open>snprintf_symbol\<close> as the bounded writer above, no run of
  \<^verbatim>\<open>exception_entry\<close> stores outside \<^verbatim>\<open>buf\<close> or prints an unterminated \<^verbatim>\<open>buf\<close> (the outcome
  is never \<open>Undefined\<close>), and neither does \<^verbatim>\<open>print_recoverable_mce_vm\<close>; every line they
  print, the newline that \<^verbatim>\<open>prerror\<close> adds included, has at most \<^verbatim>\<open>EXCEPTION_MAX_STR\<close>
  characters, whatever the snapshot and whatever the symbol table answers.
\<close>

theorem diagnostics_fit_buffer:
  "run_outcome (exception_entry env cpu stack) \<noteq> Undefined
   \<and> (\<forall>e\<in>set (run_log (exception_entry env cpu stack)). line_length e \<le> EXCEPTION_MAX_STR)
   \<and> (\<exists>evs. print_recoverable_mce_vm env stack nip msrv = Some evs
             \<and> (\<forall>e\<in>set evs. line_length e \<le> EXCEPTION_MAX_STR))"
proof -
  have run: "run_outcome (exception_entry env cpu stack) \<noteq> Undefined
      \<and> (\<forall>e\<in>set (run_log (exception_entry env cpu stack)). line_length e \<le> 320)"
  proof (cases rule: vector_cases [where stack = stack and env = env and cpu = cpu])
    case reset
    define h1 where "h1 = ''Fatal System Reset at '' @ REG (srr0 stack) @ ''   ''"
    define h2 where "h2 = ''System Reset at '' @ REG (srr0 stack) @ ''   ''"
    have len: "length h1 \<le> 319" "length h2 \<le> 319" by (simp_all add: h1_def h2_def length_REG)
    have st: "\<forall>e\<in>set [Prerror stars]. line_length e \<le> 320" using stars_length by simp
    note l1 = report_lines [OF len(1) st, of env "srr0 stack" "''  MSR '' @ REG (srr1 stack)" stack "[]"]
    note l2 = report_lines [OF len(2) st, of env "srr0 stack" "''  MSR '' @ REG (srr1 stack)" stack "[Backtrace]"]
    show ?thesis
      unfolding entry_reset [OF reset, folded h1_def h2_def] using l1 l2 by auto
  next
    case mce_retry
    obtain evs where e: "print_recoverable_mce_vm env stack (srr0 stack) (srr1 stack) = Some evs"
      and le: "\<forall>e\<in>set evs. line_length e \<le> 320"
      using mce_vm_lines by blast
    have "run_log (exception_entry env cpu stack) = evs \<and> run_outcome (exception_entry env cpu stack) = Returned"
      using e by (simp add: entry_mce_retry [OF mce_retry] mce_vm_run)
    then show ?thesis using le by simp
  next
    case mce_fatal
    define h where "h = ''Fatal MCE at '' @ REG (srr0 stack) @ ''   ''"
    have len: "length h \<le> 319" by (simp add: h_def length_REG)
    have st: "\<forall>e\<in>set [Prerror stars]. line_length e \<le> 320" using stars_length by simp
    note l = report_lines [OF len st, of env "srr0 stack" "''  MSR '' @ REG (srr1 stack)" stack "[]"]
    show ?thesis
      unfolding entry_mce_fatal [OF mce_fatal, folded h_def] using l by auto
  next
    case (handled cpu')
    then show ?thesis by (simp add: entry_handled [OF handled] exception_out_def)
  next
    case (unhandled cpu')
    obtain head where len: "length head \<le> 319" and r: "exception_entry env cpu stack =
           \<lparr>run_outcome = Aborted, run_stack = stack, run_cpu = cpu',
            run_log = [Prerror (head @ summary_tail env head (srr0 stack)
                                  (''  MSR '' @ REG (srr1 stack)) @ nl)]
                      @ dump_regs stack\<rparr>"
      using entry_unhandled [OF unhandled] by blast
    have "\<forall>e\<in>set ([] :: event list). line_length e \<le> 320" by simp
    note l = report_lines [OF len this, of env "srr0 stack" "''  MSR '' @ REG (srr1 stack)" stack "[]"]
    show ?thesis unfolding r using l by auto
  next
    case default
    define h where "h = ''Fatal Exception 0x'' @ fmt_llx (type stack) @ '' at ''
                           @ REG (fst (snd (fault_regs stack))) @ ''  ''"
    have len: "length h \<le> 319"
      using length_fmt_llx [of "type stack"] by (simp add: h_def length_REG)
    have st: "\<forall>e\<in>set [Prerror stars]. line_length e \<le> 320" using stars_length by simp
    note l = report_lines [OF len st, of env "fst (snd (fault_regs stack))"
                 "''  MSR '' @ REG (snd (snd (fault_regs stack)))" stack "[]"]
    show ?thesis
      unfolding entry_default [OF default, folded h_def] using l by auto
  qed
  show ?thesis using run mce_vm_lines [of env stack nip msrv] by (simp add: EXCEPTION_MAX_STR_def)
qed

text \<open>
  A symbol name of 1000 characters: the summary line is cut to 319 characters and
  printed with its newline.
\<close>

theorem diagnostics_fit_buffer_witness:
  "run_outcome (exception_entry (demo_env True (Some (replicate 1000 (CHR ''x''))))
      (demo_cpu False) (demo_frame 0x700 0x2)) \<noteq> Undefined \<and>
   run_log (exception_entry (demo_env True (Some (replicate 1000 (CHR ''x''))))
      (demo_cpu False) (demo_frame 0x700 0x2)) ! 1
     \<in> set (run_log (exception_entry (demo_env True (Some (replicate 1000 (CHR ''x''))))
      (demo_cpu False) (demo_frame 0x700 0x2))) \<and>
   line_length (run_log (exception_entry (demo_env True (Some (replicate 1000 (CHR ''x''))))
      (demo_cpu False) (demo_frame 0x700 0x2)) ! 1) = EXCEPTION_MAX_STR"
proof -
  define E where "E = demo_env True (Some (replicate 1000 (CHR ''x'')))"
  define F where "F = demo_frame 0x700 0x2"
  define H where "H = ''Fatal Exception 0x'' @ fmt_llx (type F) @ '' at ''
                           @ REG (fst (snd (fault_regs F))) @ ''  ''"
  define R where "R = ''  MSR '' @ REG (snd (snd (fault_regs F)))"
  have t: "type F \<noteq> 0x100" "type F \<noteq> 0x200" "type F \<noteq> 0x300"
     "type F \<noteq> 0x380" "type F \<noteq> 0x400" "type F \<noteq> 0x480"
    by (simp_all add: F_def demo_frame_def)
  have lenH: "length H \<le> 319"
    using length_fmt_llx [of "type F"] by (simp add: H_def length_REG)
  have sym: "get_symbol E (fst (snd (fault_regs F))) = Some (replicate 1000 (CHR ''x''))"
    by (simp add: E_def demo_env_def)
  have tail: "length (summary_tail E H (fst (snd (fault_regs F))) R) = 319 - length H"
    using sym lenH by (intro summary_tail_long [where name = "replicate 1000 (CHR ''x'')"])
      (simp_all add: NUL_def)
  have run: "run_log (exception_entry E (demo_cpu False) F) =
      [Prerror stars, Prerror (H @ summary_tail E H (fst (snd (fault_regs F))) R @ nl)] @ dump_regs F"
    by (simp add: entry_default [OF t] H_def R_def)
  have at1: "run_log (exception_entry E (demo_cpu False) F) ! 1
               = Prerror (H @ summary_tail E H (fst (snd (fault_regs F))) R @ nl)"
    by (simp add: run)
  have mem: "run_log (exception_entry E (demo_cpu False) F) ! 1 \<in> set (run_log (exception_entry E (demo_cpu False) F))"
    unfolding at1 by (simp add: run)
  have ge: "320 \<le> line_length (run_log (exception_entry E (demo_cpu False) F) ! 1)"
    unfolding at1 using tail lenH by (simp add: nl_def)
  note d = diagnostics_fit_buffer [of E "demo_cpu False" F 0 0]
  have "line_length (run_log (exception_entry E (demo_cpu False) F) ! 1) \<le> EXCEPTION_MAX_STR"
    using d [THEN conjunct2, THEN conjunct1] mem by blast
  then have "line_length (run_log (exception_entry E (demo_cpu False) F) ! 1) = EXCEPTION_MAX_STR"
    using ge by (simp add: EXCEPTION_MAX_STR_def)
  then show ?thesis using d [THEN conjunct1] mem unfolding E_def F_def by blast
qed

text \<open>
  C9. For an identifier outside 0x100, 0x200, 0x300, 0x380, 0x400, 0x480 and the nine
  vectors that set \<^verbatim>\<open>hv\<close>, \<^verbatim>\<open>exception_entry\<close> prints the banner, a summary line that begins
  "Fatal Exception 0x" followed by the identifier in hexadecimal, and the register
  dump, and ends in \<^verbatim>\<open>abort()\<close>, whether \<^verbatim>\<open>MSR_RI\<close> is set or not.
\<close>

theorem unknown_vector_fatal:
  assumes "type stack \<notin> {0x100, 0x200, 0x300, 0x380, 0x400, 0x480}"
      and "type stack \<notin> {0x500, 0x980, 0xe00, 0xe20, 0xe40, 0xe60, 0xe80, 0xea0, 0xf80}"
  shows "exception_entry env cpu stack =
     \<lparr>run_outcome = Aborted, run_stack = stack, run_cpu = cpu,
      run_log = [Prerror stars,
                 Prerror ((''Fatal Exception 0x'' @ fmt_llx (type stack) @ '' at ''
                           @ REG (srr0 stack) @ ''  '')
                   @ summary_tail env (''Fatal Exception 0x'' @ fmt_llx (type stack) @ '' at ''
                           @ REG (srr0 stack) @ ''  '')
                       (srr0 stack) (''  MSR '' @ REG (srr1 stack)) @ nl)]
                @ dump_regs stack\<rparr>"
proof -
  have "\<not> exception_hv (type stack)" using assms(2) by (simp add: exception_hv_def)
  then have r: "fault_regs stack = (False, srr0 stack, srr1 stack)" by (rule regs_guest)
  have t: "type stack \<noteq> 0x100" "type stack \<noteq> 0x200" "type stack \<noteq> 0x300"
     "type stack \<noteq> 0x380" "type stack \<noteq> 0x400" "type stack \<noteq> 0x480"
    using assms(1) by simp_all
  show ?thesis using entry_default [OF t, of env cpu] unfolding r by simp
qed

text \<open>Identifier 0x700 with \<^verbatim>\<open>MSR_RI\<close> set and no symbol for the address.\<close>

theorem unknown_vector_fatal_witness:
  "type (demo_frame 0x700 0x2) \<notin> {0x100, 0x200, 0x300, 0x380, 0x400, 0x480} \<and>
   type (demo_frame 0x700 0x2) \<notin> {0x500, 0x980, 0xe00, 0xe20, 0xe40, 0xe60, 0xe80, 0xea0, 0xf80} \<and>
   srr1 (demo_frame 0x700 0x2) AND MSR_RI (demo_env True None) \<noteq> 0 \<and>
   run_outcome (exception_entry (demo_env True None) (demo_cpu False) (demo_frame 0x700 0x2)) = Aborted \<and>
   run_log (exception_entry (demo_env True None) (demo_cpu False) (demo_frame 0x700 0x2)) ! 1
     = Prerror (''Fatal Exception 0x700 at 0000000030001234    MSR 0000000000000002'' @ nl)"
proof -
  define E where "E = demo_env True None"
  define F where "F = demo_frame 0x700 0x2"
  have 1: "type F \<notin> {0x100, 0x200, 0x300, 0x380, 0x400, 0x480}" by (simp add: F_def demo_frame_def)
  have 2: "type F \<notin> {0x500, 0x980, 0xe00, 0xe20, 0xe40, 0xe60, 0xe80, 0xea0, 0xf80}" by (simp add: F_def demo_frame_def)
  have 3: "srr1 F AND MSR_RI E \<noteq> 0" by (simp add: E_def F_def demo_frame_def demo_env_def)
  have f: "type F = 0x700" "srr0 F = 0x30001234" "srr1 F = 0x2" by (simp_all add: F_def demo_frame_def)
  define H where "H = ''Fatal Exception 0x'' @ fmt_llx (type F) @ '' at '' @ REG (srr0 F) @ ''  ''"
  define R where "R = ''  MSR '' @ REG (srr1 F)"
  have tail: "summary_tail E H (srr0 F) R = R"
    using length_fmt_llx [of "type F"] REG_no_NUL [of "srr1 F"]
    by (intro summary_tail_no_symbol)
      (simp_all add: H_def R_def E_def demo_env_def length_REG NUL_def)
  note u = unknown_vector_fatal [OF 1 2, of E "demo_cpu False", folded H_def R_def]
  have o: "run_outcome (exception_entry E (demo_cpu False) F) = Aborted" by (simp add: u)
  have "run_log (exception_entry E (demo_cpu False) F) ! 1 = Prerror (H @ R @ nl)"
    by (simp add: u tail)
  moreover have "H @ R = ''Fatal Exception 0x700 at 0000000030001234    MSR 0000000000000002''"
    by (simp add: H_def R_def f demo_REG)
  ultimately have "run_log (exception_entry E (demo_cpu False) F) ! 1
     = Prerror (''Fatal Exception 0x700 at 0000000030001234    MSR 0000000000000002'' @ nl)"
    by simp
  then show ?thesis using 1 2 3 o unfolding E_def F_def by blast
qed

text \<open>
  C10. Each of the nine vectors that set \<^verbatim>\<open>hv\<close> takes the \<^verbatim>\<open>default\<close> case: the run prints
  the "Fatal Exception" line with \<^verbatim>\<open>hsrr0\<close> and \<^verbatim>\<open>hsrr1\<close> and ends in \<^verbatim>\<open>abort()\<close> with the
  snapshot untouched. So no run that returns has \<^verbatim>\<open>hv\<close> set, and the rewrite of
  \<^verbatim>\<open>srr0\<close>/\<^verbatim>\<open>srr1\<close> at the end of \<^verbatim>\<open>exception_entry\<close> is never executed.
\<close>

theorem hv_vector_fatal:
  "(type stack \<in> {0x500, 0x980, 0xe00, 0xe20, 0xe40, 0xe60, 0xe80, 0xea0, 0xf80} \<longrightarrow>
      exception_entry env cpu stack =
       \<lparr>run_outcome = Aborted, run_stack = stack, run_cpu = cpu,
        run_log = [Prerror stars,
                   Prerror ((''Fatal Exception 0x'' @ fmt_llx (type stack) @ '' at ''
                             @ REG (hsrr0 stack) @ ''  '')
                     @ summary_tail env (''Fatal Exception 0x'' @ fmt_llx (type stack) @ '' at ''
                             @ REG (hsrr0 stack) @ ''  '')
                         (hsrr0 stack) (''  MSR '' @ REG (hsrr1 stack)) @ nl)]
                  @ dump_regs stack\<rparr>)
   \<and> (run_outcome (exception_entry env cpu stack) = Returned \<longrightarrow> type stack \<notin> {0x500, 0x980, 0xe00, 0xe20, 0xe40, 0xe60, 0xe80, 0xea0, 0xf80})"
proof -
  have a: "exception_entry env cpu stack =
       \<lparr>run_outcome = Aborted, run_stack = stack, run_cpu = cpu,
        run_log = [Prerror stars,
                   Prerror ((''Fatal Exception 0x'' @ fmt_llx (type stack) @ '' at ''
                             @ REG (hsrr0 stack) @ ''  '')
                     @ summary_tail env (''Fatal Exception 0x'' @ fmt_llx (type stack) @ '' at ''
                             @ REG (hsrr0 stack) @ ''  '')
                         (hsrr0 stack) (''  MSR '' @ REG (hsrr1 stack)) @ nl)]
                  @ dump_regs stack\<rparr>"
    if hv: "type stack \<in> {0x500, 0x980, 0xe00, 0xe20, 0xe40, 0xe60, 0xe80, 0xea0, 0xf80}"
  proof -
    have "exception_hv (type stack)" using hv by (simp add: exception_hv_def)
    then have r: "fault_regs stack = (True, hsrr0 stack, hsrr1 stack)" by (rule regs_hv)
    have t: "type stack \<noteq> 0x100" "type stack \<noteq> 0x200" "type stack \<noteq> 0x300"
       "type stack \<noteq> 0x380" "type stack \<noteq> 0x400" "type stack \<noteq> 0x480"
      using hv by auto
    show ?thesis using entry_default [OF t, of env cpu] unfolding r by simp
  qed
  then have "run_outcome (exception_entry env cpu stack) = Aborted" if "type stack \<in> {0x500, 0x980, 0xe00, 0xe20, 0xe40, 0xe60, 0xe80, 0xea0, 0xf80}"
    using that by simp
  then show ?thesis using a by auto
qed

text \<open>Vector 0x500 with \<^verbatim>\<open>MSR_RI\<close> set in \<^verbatim>\<open>hsrr1\<close>.\<close>

theorem hv_vector_fatal_witness:
  "type (demo_frame 0x500 0) \<in> {0x500, 0x980, 0xe00, 0xe20, 0xe40, 0xe60, 0xe80, 0xea0, 0xf80} \<and>
   hsrr1 (demo_frame 0x500 0) AND MSR_RI (demo_env True None) \<noteq> 0 \<and>
   run_outcome (exception_entry (demo_env True None) (demo_cpu False) (demo_frame 0x500 0)) = Aborted \<and>
   run_stack (exception_entry (demo_env True None) (demo_cpu False) (demo_frame 0x500 0))
     = demo_frame 0x500 0"
proof -
  have 1: "type (demo_frame 0x500 0) \<in> {0x500, 0x980, 0xe00, 0xe20, 0xe40, 0xe60, 0xe80, 0xea0, 0xf80}" by (simp add: demo_frame_def)
  have 2: "hsrr1 (demo_frame 0x500 0) AND MSR_RI (demo_env True None) \<noteq> 0"
    by (simp add: demo_frame_def demo_env_def)
  note h = hv_vector_fatal [of "demo_frame 0x500 0" "demo_env True None" "demo_cpu False",
      THEN conjunct1, rule_format, OF 1]
  have "run_outcome (exception_entry (demo_env True None) (demo_cpu False) (demo_frame 0x500 0)) = Aborted"
    "run_stack (exception_entry (demo_env True None) (demo_cpu False) (demo_frame 0x500 0))
     = demo_frame 0x500 0"
    by (simp_all add: h)
  then show ?thesis using 1 2 by blast
qed

end
